theory Spec2Isabelle
  imports Complex_Main "HOL-Library.Sublist" "HOL-Library.Word" "HOL-Library.Multiset"
begin

section \<open>JavaScript strings\<close>

text \<open>
  A JavaScript string is modelled as a \<^typ>\<open>string\<close>, one \<^typ>\<open>char\<close> per code unit;
  every literal of the sources is ASCII. \<open>s.includes(p)\<close> is the contiguous-substring test,
  which is \<^const>\<open>sublist\<close> of the list library; \<open>s.startsWith(p)\<close> is \<^const>\<open>prefix\<close>.
\<close>

definition str_includes :: "string \<Rightarrow> string \<Rightarrow> bool" where
  "str_includes s p = sublist p s"

definition startsWith :: "string \<Rightarrow> string \<Rightarrow> bool" where
  "startsWith s p = prefix p s"

text \<open>\<open>toLowerCase\<close> on the ASCII range: the letters A to Z (codes 65 to 90) move up by 32.\<close>

definition lowerChar :: "char \<Rightarrow> char" where
  "lowerChar c =
     (let n = (of_char c :: nat) in if 65 \<le> n \<and> n \<le> 90 then char_of (n + 32) else c)"

definition toLowerCase :: "string \<Rightarrow> string" where
  "toLowerCase s = map lowerChar s"

section \<open>Main-world shield (main-world.ts)\<close>

definition AD_URL_PATTERNS :: "string list" where
  "AD_URL_PATTERNS =
     [''exoclick'', ''adsterra'', ''juicyads'', ''trafficjunky'',
      ''popunder'', ''clickunder'', ''propellerads'', ''hilltopads'',
      ''adcash'', ''clickadu'', ''popcash'', ''popads'', ''admaven'',
      ''revcontent'']"

definition AD_HTML_MARKERS :: "string list" where
  "AD_HTML_MARKERS =
     [''data-element'', ''data-izone'', ''title=\"offer\"'', ''title=\"Advertisement\"'']"

text \<open>\<open>isAdNetworkUrl\<close>: the empty string is falsy; \<open>Array.some\<close> is \<^const>\<open>list_ex\<close>.\<close>

definition isAdNetworkUrl :: "string \<Rightarrow> bool" where
  "isAdNetworkUrl url =
     (if url = [] then False
      else let lower = toLowerCase url in list_ex (\<lambda>p. str_includes lower p) AD_URL_PATTERNS)"

definition hasAdMarkers :: "string \<Rightarrow> bool" where
  "hasAdMarkers html =
     (if html = [] \<or> length html < 20 then False
      else list_ex (\<lambda>m. str_includes html m) AD_HTML_MARKERS)"

subsection \<open>window.open\<close>

text \<open>
  The first argument is \<open>undefined\<close> (\<^const>\<open>None\<close>) or a value whose \<open>toString()\<close> is the
  given string. The wrapper either returns \<open>null\<close> or calls the saved original with the
  three arguments it received.
\<close>

datatype open_result =
    ReturnsNull
  | CallsOriginalOpen "string option" "string option" "string option"

definition patchedOpen :: "string option \<Rightarrow> string option \<Rightarrow> string option \<Rightarrow> open_result" where
  "patchedOpen url name specs =
     (let urlStr = (case url of None \<Rightarrow> [] | Some u \<Rightarrow> u) in
      if urlStr = [] \<or> urlStr = ''about:blank'' \<or> startsWith urlStr ''blob:''
           \<or> startsWith urlStr ''data:''
      then CallsOriginalOpen url name specs
      else if isAdNetworkUrl urlStr then ReturnsNull
      else let lower = toLowerCase urlStr in
        if str_includes lower ''popunder'' \<or> str_includes lower ''clickunder'' then ReturnsNull
        else CallsOriginalOpen url name specs)"

subsection \<open>insertAdjacentHTML\<close>

text \<open>
  The second argument is typed \<open>string\<close>, but the wrapper tests \<open>typeof html === 'string'\<close>
  at run time, so the model keeps the other case.
\<close>

datatype html_arg = HtmlString string | HtmlOther

datatype insert_result = BlockedSilently | CallsOriginalInsert string html_arg

definition patchedInsertAdjacentHTML :: "string \<Rightarrow> html_arg \<Rightarrow> insert_result" where
  "patchedInsertAdjacentHTML position html =
     (case html of
        HtmlString h \<Rightarrow>
          if length h > 200 \<and> hasAdMarkers h then BlockedSilently
          else CallsOriginalInsert position html
      | HtmlOther \<Rightarrow> CallsOriginalInsert position html)"


section \<open>The document as the scripts see it\<close>

text \<open>
  A node is an opaque handle. Inline style declarations are the only part of the document
  the scripts write; they are kept as a store from node and property name to value and
  priority. Everything else the scripts read from the browser is a field of the record
  \<open>browser\<close>: a call that can throw returns an option (\<^const>\<open>None\<close> is the exception),
  and the calls whose answer depends on layout take the current inline styles.
\<close>

type_synonym node = nat

type_synonym styles = "node \<Rightarrow> string \<Rightarrow> (string \<times> string) option"

definition setProperty :: "node \<Rightarrow> string \<Rightarrow> string \<Rightarrow> string \<Rightarrow> styles \<Rightarrow> styles" where
  "setProperty el prop val prio st = st(el := (st el)(prop \<mapsto> (val, prio)))"

record computed_style =
  position :: string
  zIndex :: string

record dom_rect =
  rectLeft :: real
  rectTop :: real
  rectRight :: real
  rectBottom :: real
  rectWidth :: real
  rectHeight :: real

text \<open>An element together with the subtree below it, as \<open>node.children\<close> walks it.\<close>

datatype element = Element (eid: node) (children: "element list")

record browser =
  isHTMLElement :: "node \<Rightarrow> bool"
  hasStyle :: "node \<Rightarrow> bool"
  hasAttributeFn :: "node \<Rightarrow> bool"
  hasAttribute :: "node \<Rightarrow> string \<Rightarrow> bool"
  getAttribute :: "node \<Rightarrow> string \<Rightarrow> string option"
  className :: "node \<Rightarrow> string option"
  tagName :: "node \<Rightarrow> string"
  src :: "node \<Rightarrow> string"
  isConnected :: "node \<Rightarrow> bool"
  hasMatchesFn :: "node \<Rightarrow> bool"
  matches :: "node \<Rightarrow> string \<Rightarrow> bool option"
  parentElement :: "node \<Rightarrow> node option"
  body :: "node option"
  contains :: "node \<Rightarrow> node \<Rightarrow> bool"
  querySelector :: "node \<Rightarrow> string \<Rightarrow> node option"
  closest :: "node \<Rightarrow> string \<Rightarrow> node option"
  querySelectorAll :: "string \<Rightarrow> node list option"
  getComputedStyle :: "styles \<Rightarrow> node \<Rightarrow> computed_style option"
  getBoundingClientRect :: "styles \<Rightarrow> node \<Rightarrow> dom_rect"
  innerText :: "styles \<Rightarrow> node \<Rightarrow> string"
  innerWidth :: real
  innerHeight :: real
  clock :: "nat \<Rightarrow> real"

text \<open>
  \<open>hasStyle b n\<close> says that the node has the property \<open>style\<close>: HTML and SVG elements
  have it, an element of another namespace (\<open>createElementNS\<close>) does not, and
  \<open>el.style.setProperty\<close> throws on such a node.
  \<open>className b n\<close> is \<^const>\<open>None\<close> when \<open>typeof el.className\<close> is not \<open>'string'\<close> (an SVG
  element). \<open>clock b k\<close> is what the \<open>k\<close>-th call of \<open>performance.now()\<close> returns, in
  milliseconds; the timestamps are taken as real numbers.
\<close>

subsection \<open>appendChild\<close>

definition isAdMarkerElement :: "browser \<Rightarrow> node \<Rightarrow> bool" where
  "isAdMarkerElement b el =
     (if \<not> hasAttributeFn b el then False
      else hasAttribute b el ''data-element'' \<or> hasAttribute b el ''data-izone'' \<or>
           (case className b el of Some c \<Rightarrow> str_includes c ''AdSlot'' | None \<Rightarrow> False))"

text \<open>
  The wrapper returns what the original returns for the receiver and the child it was
  given; the model returns the inline styles it leaves and that call.
\<close>

datatype append_call = CallsOriginalAppend node node

definition patchedAppendChild :: "browser \<Rightarrow> node \<Rightarrow> node \<Rightarrow> styles \<Rightarrow> styles \<times> append_call" where
  "patchedAppendChild b this newChild st =
     ((if isHTMLElement b newChild \<and> isAdMarkerElement b newChild
       then setProperty newChild ''visibility'' ''hidden'' ''important''
              (setProperty newChild ''display'' ''none'' ''important'' st)
       else st),
      CallsOriginalAppend this newChild)"


section \<open>Cosmetic engine (content/index.ts)\<close>

subsection \<open>Helpers from the JavaScript library\<close>

text \<open>\<open>\s\<close> on the code units below 256: tab, line feed, vertical tab, form feed, carriage
  return, space and the no-break space.\<close>

definition isWhitespace :: "char \<Rightarrow> bool" where
  "isWhitespace c = ((of_char c :: nat) \<in> {9, 10, 11, 12, 13, 32, 160})"

definition isDigit :: "char \<Rightarrow> bool" where
  "isDigit c = (let n = (of_char c :: nat) in 48 \<le> n \<and> n \<le> 57)"

definition isUpper :: "char \<Rightarrow> bool" where
  "isUpper c = (let n = (of_char c :: nat) in 65 \<le> n \<and> n \<le> 90)"

text \<open>\<open>cls.split(/\s+/)\<close>: a run of whitespace separates two tokens, so a string that
  starts or ends with whitespace yields an empty first or last token.\<close>

function splitWhitespace :: "string \<Rightarrow> string list" where
  "splitWhitespace [] = [[]]"
| "splitWhitespace (c # cs) =
     (if isWhitespace c then [] # splitWhitespace (dropWhile isWhitespace cs)
      else (case splitWhitespace cs of
              [] \<Rightarrow> [[c]]
            | t # ts \<Rightarrow> (c # t) # ts))"
  by pat_completeness auto
termination
  by (relation "measure length") (auto simp: length_dropWhile_le less_Suc_eq_le)

definition trim :: "string \<Rightarrow> string" where
  "trim s = rev (dropWhile isWhitespace (rev (dropWhile isWhitespace s)))"

text \<open>
  \<open>parseInt\<close> in radix 10: leading whitespace, an optional sign, then the longest run of
  digits; \<^const>\<open>None\<close> is \<open>NaN\<close>. A computed \<open>z-index\<close> is \<open>auto\<close> or a decimal integer,
  so the hexadecimal prefix is not modelled. A comparison with \<open>NaN\<close> is false.
\<close>

definition digitsValue :: "string \<Rightarrow> int" where
  "digitsValue ds = foldl (\<lambda>acc c. 10 * acc + (int (of_char c) - 48)) 0 ds"

definition parseInt :: "string \<Rightarrow> int option" where
  "parseInt s =
     (let s1 = dropWhile isWhitespace s;
          negative = (s1 \<noteq> [] \<and> hd s1 = CHR ''-'');
          s2 = (if s1 \<noteq> [] \<and> (hd s1 = CHR ''-'' \<or> hd s1 = CHR ''+'') then tl s1 else s1);
          ds = takeWhile isDigit s2
      in if ds = [] then None
         else Some (if negative then - digitsValue ds else digitsValue ds))"

definition num_le :: "int option \<Rightarrow> int \<Rightarrow> bool" where
  "num_le z k = (case z of None \<Rightarrow> False | Some v \<Rightarrow> v \<le> k)"

definition num_gt :: "int option \<Rightarrow> int \<Rightarrow> bool" where
  "num_gt z k = (case z of None \<Rightarrow> False | Some v \<Rightarrow> v > k)"

fun join :: "string \<Rightarrow> string list \<Rightarrow> string" where
  "join sep [] = []"
| "join sep [x] = x"
| "join sep (x # y # ys) = x @ sep @ join sep (y # ys)"

subsection \<open>Constants and state\<close>

definition OBSERVER_BUDGET_MS :: real where
  "OBSERVER_BUDGET_MS = 8"

definition IDLE_BATCH_SIZE :: nat where
  "IDLE_BATCH_SIZE = 50"

definition QUIET_MODE_THRESHOLD_MS :: real where
  "QUIET_MODE_THRESHOLD_MS = 10000"

record CosmeticConfig =
  fastSelectors :: "string list"
  slowSelectors :: "string list"

text \<open>
  The fields of \<open>CosmeticEngine\<close> that the modelled methods touch, the inline styles of the
  document, and the set of nodes on which \<open>remove()\<close> has been called.
\<close>

record engine =
  config :: "CosmeticConfig option"
  processedNodes :: "node set"
  engineMode :: string
  lastAdDetection :: real
  quietMode :: bool
  removalQueue :: "node list"
  cosmeticHides :: nat
  heuristicRemovals :: nat
  mutationBatches :: nat
  inlineStyles :: styles
  removed :: "node set"

definition initialEngine :: engine where
  "initialEngine =
     \<lparr> config = None, processedNodes = {}, engineMode = ''lite'', lastAdDetection = 0,
       quietMode = False, removalQueue = [], cosmeticHides = 0, heuristicRemovals = 0,
       mutationBatches = 0, inlineStyles = (\<lambda>_. Map.empty), removed = {} \<rparr>"

definition buildConfig :: "string \<Rightarrow> string \<Rightarrow> CosmeticConfig" where
  "buildConfig m domain =
     \<lparr> fastSelectors =
         [''.ad-container'', ''#sidebar-ads'', ''.sponsored-post'',
          ''.ads-block'', ''.ad-box'', ''.ad-wrapper'', ''.ads-label'',
          ''[data-element]'', ''[data-izone]'',
          ''iframe[src*=\"exoclick\"]'', ''iframe[src*=\"adsterra\"]'',
          ''iframe[src*=\"juicyads\"]'', ''iframe[src*=\"trafficjunky\"]'',
          ''iframe[title=\"offer\"]'', ''iframe[title=\"Advertisement\"]'',
          ''div[id^=\"__clb-spot_\"]'', ''iframe[id^=\"__clb-spot_\"]'',
          ''div[class*=\"AdSlot\"]'', ''div[class*=\"AdsContainer\"]'',
          ''.modal-backdrop''] @
         (if \<not> str_includes domain ''youtube.com''
          then [''div[class*=\"ad-\"]'', ''div[id*=\"ad-\"]''] else []),
       slowSelectors =
         (if m = ''advanced''
          then [''div[style*=\"z-index: 2147483647\"]'', ''div[style*=\"bottom: 10px\"] iframe'',
                ''.overlay-container'']
          else []) \<rparr>"

subsection \<open>hideElement and the removal queue\<close>

text \<open>
  A method that can be left by an exception returns how it ended beside the state it left:
  an exception does not undo the writes made before it.
\<close>

datatype completion = Completed | Threw

text \<open>
  \<open>hideElement\<close>. The argument is a node handle, so the \<open>!el\<close> half of the guard never fires.
  The node is added to \<open>processedNodes\<close> first; the callers cast what they pass to
  \<open>HTMLElement\<close> without a check, and on a node without \<open>style\<close> the first \<open>setProperty\<close>
  throws, after the node was added and before anything else is written.
\<close>

definition hideElement :: "browser \<Rightarrow> node \<Rightarrow> engine \<Rightarrow> completion \<times> engine" where
  "hideElement b el s =
     (if el \<in> processedNodes s then (Completed, s)
      else if \<not> hasStyle b el
        then (Threw, s\<lparr>processedNodes := insert el (processedNodes s)\<rparr>)
      else (Completed,
            s\<lparr> processedNodes := insert el (processedNodes s),
               inlineStyles := setProperty el ''visibility'' ''hidden'' ''important''
                                 (setProperty el ''display'' ''none'' ''important'' (inlineStyles s)),
               cosmeticHides := cosmeticHides s + 1,
               removalQueue := removalQueue s @ [el] \<rparr>))"

text \<open>One run of \<open>processChunk\<close>: shift and remove while the queue is not empty and fewer
  than \<open>IDLE_BATCH_SIZE\<close> nodes were taken. The rescheduling that follows changes no state.\<close>

function chunkLoop :: "nat \<Rightarrow> engine \<Rightarrow> engine" where
  "chunkLoop processed s =
     (if removalQueue s \<noteq> [] \<and> processed < IDLE_BATCH_SIZE
      then chunkLoop (processed + 1)
             (s\<lparr> removalQueue := tl (removalQueue s),
                 removed := insert (hd (removalQueue s)) (removed s) \<rparr>)
      else s)"
  by pat_completeness auto
termination
  by (relation "measure (\<lambda>(processed, s). IDLE_BATCH_SIZE - processed)") auto

declare chunkLoop.simps [simp del]

definition processChunk :: "engine \<Rightarrow> engine" where
  "processChunk s = chunkLoop 0 s"

text \<open>
  \<open>runFastCleanup\<close>: the \<open>for\<close> loop is \<open>hideEach\<close>. The \<open>try\<close> of the method encloses the
  query and the loop, so an exception from \<open>hideElement\<close> ends the loop and the elements
  after it are not visited.
\<close>

fun hideEach :: "browser \<Rightarrow> node list \<Rightarrow> engine \<Rightarrow> engine" where
  "hideEach b [] s = s"
| "hideEach b (el # els) s =
     (case hideElement b el s of
        (Threw, s1) \<Rightarrow> s1
      | (Completed, s1) \<Rightarrow> hideEach b els s1)"

definition runFastCleanup :: "browser \<Rightarrow> engine \<Rightarrow> engine" where
  "runFastCleanup b s =
     (case config s of
        None \<Rightarrow> s
      | Some cfg \<Rightarrow>
          let selector = join '', '' (fastSelectors cfg) in
          if selector = [] then s
          else (case querySelectorAll b selector of
                  None \<Rightarrow> s
                | Some elements \<Rightarrow> hideEach b elements s))"


subsection \<open>Ancestor escalation\<close>

definition isPositioned :: "computed_style \<Rightarrow> bool" where
  "isPositioned cs = (position cs = ''fixed'' \<or> position cs = ''absolute'')"

text \<open>The \<open>while\<close> loop of \<open>nukeAdRoot\<close>; a throwing \<open>getComputedStyle\<close> breaks out of it.\<close>

function ancestorWalk :: "browser \<Rightarrow> styles \<Rightarrow> node option \<Rightarrow> nat \<Rightarrow> node \<Rightarrow> node" where
  "ancestorWalk b st current depth rootEl =
     (case current of
        None \<Rightarrow> rootEl
      | Some cur \<Rightarrow>
          if Some cur \<noteq> body b \<and> depth < 10
          then (case getComputedStyle b st cur of
                  None \<Rightarrow> rootEl
                | Some cs \<Rightarrow>
                    ancestorWalk b st (parentElement b cur) (depth + 1)
                      (if isPositioned cs \<or> zIndex cs \<noteq> ''auto'' then cur else rootEl))
          else rootEl)"
  by pat_completeness auto
termination
  by (relation "measure (\<lambda>(b, st, current, depth, rootEl). 10 - depth)") auto

declare ancestorWalk.simps [simp del]

text \<open>The call of \<open>hideElement\<close> that ends \<open>nukeAdRoot\<close> is outside the \<open>try\<close> of the loop.\<close>

definition nukeAdRoot :: "browser \<Rightarrow> node \<Rightarrow> engine \<Rightarrow> completion \<times> engine" where
  "nukeAdRoot b n s =
     hideElement b (ancestorWalk b (inlineStyles s) (parentElement b n) 0 n) s"

subsection \<open>Classification of one node\<close>

text \<open>
  Two calls of these methods can throw outside every \<open>try\<close>: \<open>getComputedStyle\<close> in part A
  of \<open>advancedHeuristics\<close>, and \<open>hideElement\<close> wherever no \<open>try\<close> encloses it. The
  exception then leaves \<open>analyzeNode\<close> and \<open>processNodesBudgeted\<close> with the state reached
  so far.
\<close>

definition CosmeticEngine_isAdNetworkUrl :: "string \<Rightarrow> bool" where
  "CosmeticEngine_isAdNetworkUrl url =
     (if url = [] then False
      else let lower = toLowerCase url in
        list_ex (\<lambda>p. str_includes lower p)
          [''exoclick'', ''adsterra'', ''juicyads'', ''trafficjunky'', ''popunder'',
           ''clickunder'', ''propellerads'', ''hilltopads'', ''adcash'', ''clickadu'',
           ''popcash'', ''popads'', ''admaven'', ''revcontent'', ''mgid.com'',
           ''taboola'', ''outbrain''])"

definition hasAdAttribute :: "browser \<Rightarrow> node \<Rightarrow> bool" where
  "hasAdAttribute b n = (hasAttribute b n ''data-element'' \<or> hasAttribute b n ''data-izone'')"

definition isObfuscatedToken :: "string \<Rightarrow> bool" where
  "isObfuscatedToken c =
     (length c > 15 \<and> list_ex isUpper c \<and> list_ex (\<lambda>x. isDigit x \<or> x = CHR ''_'') c)"

text \<open>Part C of \<open>advancedHeuristics\<close>, the icon fingerprint; no \<open>try\<close> encloses it.\<close>

definition svgFingerprint :: "browser \<Rightarrow> node \<Rightarrow> engine \<Rightarrow> completion \<times> engine" where
  "svgFingerprint b n s =
     (if tagName b n = ''svg'' \<or> querySelector b n ''svg'' \<noteq> None
      then (let svg = (if tagName b n = ''svg'' then Some n else querySelector b n ''svg'');
                viewBox = (case svg of None \<Rightarrow> None | Some v \<Rightarrow> getAttribute b v ''viewBox'')
            in if viewBox = Some ''0 0 8 8'' \<or> viewBox = Some ''0 0 87 16''
                    \<or> viewBox = Some ''0 0 85 16''
               then (case closest b n ''div[style*=\"fixed\"]'' of
                       None \<Rightarrow> (Completed, s)
                     | Some parent \<Rightarrow>
                         if isHTMLElement b parent then hideElement b parent s
                         else (Completed, s))
               else (Completed, s))
      else (Completed, s))"

text \<open>
  Part B, the full-bleed overlay. The flag says whether part B returned from
  \<open>advancedHeuristics\<close>; otherwise part C follows with the state part B left. Its \<open>try\<close>
  swallows a throwing \<open>getComputedStyle\<close>, and a throwing \<open>hideElement\<close> after the counter
  was raised.
\<close>

definition fullscreenOverlay :: "browser \<Rightarrow> node \<Rightarrow> engine \<Rightarrow> bool \<times> engine" where
  "fullscreenOverlay b n s =
     (case getComputedStyle b (inlineStyles s) n of
        None \<Rightarrow> (False, s)
      | Some cs \<Rightarrow>
          if isPositioned cs \<and> num_gt (parseInt (zIndex cs)) 100
          then (let rect = getBoundingClientRect b (inlineStyles s) n;
                    isFullscreen = (rectWidth rect > innerWidth b * 0.7
                                    \<and> rectHeight rect > innerHeight b * 0.7)
                in if isFullscreen
                   then (let textLen = length (trim (innerText b (inlineStyles s) n));
                             hasAdAttr = hasAdAttribute b n
                         in if textLen = 0 \<or> hasAdAttr
                            then (case hideElement b n
                                         (s\<lparr>heuristicRemovals := heuristicRemovals s + 1\<rparr>) of
                                    (Completed, s1) \<Rightarrow> (True, s1)
                                  | (Threw, s1) \<Rightarrow> (False, s1))
                            else (False, s))
                   else (False, s))
          else (False, s))"

definition overlayOrSvg :: "browser \<Rightarrow> node \<Rightarrow> engine \<Rightarrow> completion \<times> engine" where
  "overlayOrSvg b n s =
     (case fullscreenOverlay b n s of
        (True, s1) \<Rightarrow> (Completed, s1)
      | (False, s1) \<Rightarrow> svgFingerprint b n s1)"

definition advancedHeuristics :: "browser \<Rightarrow> node \<Rightarrow> engine \<Rightarrow> completion \<times> engine" where
  "advancedHeuristics b n s =
     (case className b n of
        None \<Rightarrow> overlayOrSvg b n s
      | Some cls \<Rightarrow>
          if length cls > 0 \<and> length (splitWhitespace cls) \<ge> 3
               \<and> length (filter isObfuscatedToken (splitWhitespace cls)) \<ge> 3
          then (case getComputedStyle b (inlineStyles s) n of
                  None \<Rightarrow> (Threw, s)
                | Some cs \<Rightarrow>
                    if isPositioned cs
                    then hideElement b n (s\<lparr>heuristicRemovals := heuristicRemovals s + 1\<rparr>)
                    else overlayOrSvg b n s)
          else overlayOrSvg b n s)"

text \<open>
  Step 1 of \<open>analyzeNode\<close>, the fast selector match inside its \<open>try\<close>. The flag says whether
  the step returned from \<open>analyzeNode\<close>: a throwing \<open>matches\<close> or \<open>hideElement\<close> is swallowed
  and step 2 follows.
\<close>

definition fastSelectorStep :: "browser \<Rightarrow> string \<Rightarrow> node \<Rightarrow> engine \<Rightarrow> bool \<times> engine" where
  "fastSelectorStep b fs n s =
     (if fs \<noteq> [] \<and> matches b n fs = Some True
      then (case hideElement b n s of
              (Completed, s1) \<Rightarrow> (True, s1)
            | (Threw, s1) \<Rightarrow> (False, s1))
      else (False, s))"

text \<open>
  \<open>analyzeNode\<close>, with the selector string \<open>fs\<close>. The loop over \<open>node.children\<close> is
  \<open>analyzeChildren\<close>, which skips a child that is already processed when its turn comes.
\<close>

fun analyzeNode :: "browser \<Rightarrow> string \<Rightarrow> element \<Rightarrow> engine \<Rightarrow> completion \<times> engine"
  and analyzeChildren :: "browser \<Rightarrow> string \<Rightarrow> element list \<Rightarrow> engine \<Rightarrow> completion \<times> engine"
where
  "analyzeNode b fs (Element n cs) s =
     (if \<not> hasMatchesFn b n then (Completed, s)
      else (case fastSelectorStep b fs n s of
              (True, s0) \<Rightarrow> (Completed, s0)
            | (False, s0) \<Rightarrow>
                if hasAdAttribute b n then nukeAdRoot b n s0
                else if (case className b n of
                           Some c \<Rightarrow> str_includes c ''AdSlot'' | None \<Rightarrow> False)
                  then nukeAdRoot b n s0
                else if tagName b n = ''IFRAME'' \<and> CosmeticEngine_isAdNetworkUrl (src b n)
                  then hideElement b n s0
                else (case (if engineMode s0 = ''advanced'' \<and> \<not> quietMode s0
                            then advancedHeuristics b n s0 else (Completed, s0)) of
                        (Threw, s1) \<Rightarrow> (Threw, s1)
                      | (Completed, s1) \<Rightarrow>
                          if length cs > 0 \<and> length cs < 30 then analyzeChildren b fs cs s1
                          else (Completed, s1))))"
| "analyzeChildren b fs [] s = (Completed, s)"
| "analyzeChildren b fs (c # cs) s =
     (if eid c \<in> processedNodes s then analyzeChildren b fs cs s
      else (case analyzeNode b fs c s of
              (Threw, s1) \<Rightarrow> (Threw, s1)
            | (Completed, s1) \<Rightarrow> analyzeChildren b fs cs s1))"

subsection \<open>processNodesBudgeted\<close>

text \<open>
  The \<open>for\<close> loop. \<open>k\<close> counts the calls of \<open>performance.now()\<close> made so far, and the
  result carries the count on leaving. The candidates are elements, so \<open>!node\<close> is false.
\<close>

fun budgetLoop ::
  "browser \<Rightarrow> real \<Rightarrow> string \<Rightarrow> nat \<Rightarrow> element list \<Rightarrow> engine \<Rightarrow> nat \<times> completion \<times> engine"
where
  "budgetLoop b deadline fs k [] s = (k, Completed, s)"
| "budgetLoop b deadline fs k (nd # rest) s =
     (if clock b k > deadline then (Suc k, Completed, s)
      else if \<not> isConnected b (eid nd) \<or> eid nd \<in> processedNodes s
        then budgetLoop b deadline fs (Suc k) rest s
      else (case analyzeNode b fs nd s of
              (Threw, s1) \<Rightarrow> (Suc k, Threw, s1)
            | (Completed, s1) \<Rightarrow> budgetLoop b deadline fs (Suc k) rest s1))"

text \<open>The quiet-mode block that ends the pass, entered with \<open>k\<close> clock calls made.\<close>

definition quietUpdate :: "browser \<Rightarrow> nat \<Rightarrow> engine \<Rightarrow> nat \<times> engine" where
  "quietUpdate b k s =
     (if cosmeticHides s = 0
      then (if \<not> quietMode s
            then (if clock b k - lastAdDetection s > QUIET_MODE_THRESHOLD_MS
                  then (Suc k, s\<lparr>quietMode := True\<rparr>)
                  else (Suc k, s))
            else (k, s))
      else (Suc k, s\<lparr>lastAdDetection := clock b k, quietMode := False\<rparr>))"

definition processNodesBudgeted ::
  "browser \<Rightarrow> nat \<Rightarrow> element list \<Rightarrow> engine \<Rightarrow> nat \<times> completion \<times> engine"
where
  "processNodesBudgeted b k nodes s =
     (case config s of
        None \<Rightarrow> (k, Completed, s)
      | Some cfg \<Rightarrow>
          let deadline = clock b k + OBSERVER_BUDGET_MS;
              fastSelector = join '', '' (fastSelectors cfg)
          in (case budgetLoop b deadline fastSelector (Suc k) nodes s of
                (k1, Threw, s1) \<Rightarrow> (k1, Threw, s1)
              | (k1, Completed, s1) \<Rightarrow>
                  (let (k2, s2) = quietUpdate b k1 s1 in (k2, Completed, s2))))"


subsection \<open>Media guard: the overlay sweep\<close>

definition PLAYER_UI_SELECTOR :: string where
  "PLAYER_UI_SELECTOR =
     ''video, main, article, .content, .video-player, nav, header, footer, [class*=\"player\"], [class*=\"controls\"], .ytp-*, [id*=\"player\"]''"

definition OVERLAY_SELECTOR :: string where
  "OVERLAY_SELECTOR = ''div[style*=\"fixed\"], div[style*=\"absolute\"]''"

text \<open>
  The body of the \<open>for\<close> loop of \<open>nukeOverlaysNearVideo\<close> for one overlay; its \<open>try\<close>
  swallows a throwing \<open>getComputedStyle\<close>, \<open>matches\<close> or \<open>hideElement\<close>. The selector list holds
  \<open>.ytp-*\<close>; a browser that rejects it throws from \<open>matches\<close> for every element, and
  then no overlay is hidden.
\<close>

definition overlayStep :: "browser \<Rightarrow> node \<Rightarrow> dom_rect \<Rightarrow> node \<Rightarrow> engine \<Rightarrow> engine" where
  "overlayStep b video vRect el s =
     (if el \<in> processedNodes s then s
      else (case getComputedStyle b (inlineStyles s) el of
              None \<Rightarrow> s
            | Some cs \<Rightarrow>
                if num_le (parseInt (zIndex cs)) 10 then s
                else (let rect = getBoundingClientRect b (inlineStyles s) el;
                          overlaps = (\<not> (rectRight rect < rectLeft vRect
                                          \<or> rectLeft rect > rectRight vRect
                                          \<or> rectBottom rect < rectTop vRect
                                          \<or> rectTop rect > rectBottom vRect))
                      in if overlaps \<and> \<not> contains b el video
                         then (case matches b el PLAYER_UI_SELECTOR of
                                 None \<Rightarrow> s
                               | Some isPlayerUI \<Rightarrow>
                                   if \<not> isPlayerUI then snd (hideElement b el s) else s)
                         else s)))"

text \<open>If \<open>querySelectorAll\<close> throws, the exception leaves the method before any write.\<close>

definition nukeOverlaysNearVideo :: "browser \<Rightarrow> node \<Rightarrow> engine \<Rightarrow> engine" where
  "nukeOverlaysNearVideo b video s =
     (let vRect = getBoundingClientRect b (inlineStyles s) video in
      if rectWidth vRect < 50 \<or> rectHeight vRect < 50 then s
      else (case querySelectorAll b OVERLAY_SELECTOR of
              None \<Rightarrow> s
            | Some overlays \<Rightarrow> fold (overlayStep b video vRect) overlays s))"

subsection \<open>Click protection\<close>

definition CLICK_SAFE_SELECTOR :: string where
  "CLICK_SAFE_SELECTOR = ''video, main, article, .content, .video-player, nav, form, dialog''"

record click_event =
  defaultPrevented :: bool
  propagationStopped :: bool

text \<open>The capture-phase listener of \<open>setupClickProtection\<close>, for the event \<open>e\<close> with target
  \<open>target\<close>. A target without \<open>matches\<close> (also a null target) returns at once. The \<open>try\<close>
  swallows a throwing \<open>hideElement\<close>, which comes after the event was cancelled.\<close>

definition clickListener ::
  "browser \<Rightarrow> node \<Rightarrow> click_event \<Rightarrow> engine \<Rightarrow> click_event \<times> engine"
where
  "clickListener b target e s =
     (if \<not> hasMatchesFn b target then (e, s)
      else (case getComputedStyle b (inlineStyles s) target of
              None \<Rightarrow> (e, s)
            | Some cs \<Rightarrow>
                if position cs \<noteq> ''fixed'' \<and> position cs \<noteq> ''absolute'' then (e, s)
                else if num_le (parseInt (zIndex cs)) 10 then (e, s)
                else (let rect = getBoundingClientRect b (inlineStyles s) target in
                      if rectWidth rect > innerWidth b * 0.4
                           \<and> rectHeight rect > innerHeight b * 0.4
                      then (case matches b target CLICK_SAFE_SELECTOR of
                              None \<Rightarrow> (e, s)
                            | Some safe \<Rightarrow>
                                if \<not> safe
                                then (e\<lparr>defaultPrevented := True, propagationStopped := True\<rparr>,
                                      snd (hideElement b target s))
                                else (e, s))
                      else (e, s))))"

section \<open>Service worker (background/index.ts)\<close>

datatype FilteringMode = Lite | Standard | Advanced

text \<open>
  A JavaScript number that reaches the worker in a message: a real number or \<open>NaN\<close>. The
  handlers do not check the fields of a message, so \<open>NaN\<close> also stands for a field that is
  missing or not numeric: \<open>undefined < 1\<close>, \<open>undefined > 120\<close> and \<open>undefined * 60000\<close>
  behave as with \<open>NaN\<close>. A comparison with \<open>NaN\<close> is false, and arithmetic on it gives
  \<open>NaN\<close>.
\<close>

datatype jsnum = Num real | NaN

definition js_less :: "jsnum \<Rightarrow> real \<Rightarrow> bool" where
  "js_less x k = (case x of NaN \<Rightarrow> False | Num v \<Rightarrow> v < k)"

definition js_greater :: "jsnum \<Rightarrow> real \<Rightarrow> bool" where
  "js_greater x k = (case x of NaN \<Rightarrow> False | Num v \<Rightarrow> v > k)"

text \<open>\<open>now + x * k\<close> for numbers \<open>now\<close> and \<open>k\<close>.\<close>

definition js_plus_times :: "real \<Rightarrow> jsnum \<Rightarrow> real \<Rightarrow> jsnum" where
  "js_plus_times now x k = (case x of NaN \<Rightarrow> NaN | Num v \<Rightarrow> Num (now + v * k))"

record SiteSettings =
  mode :: FilteringMode
  hostPermissionGranted :: bool
  cosmeticEnabled :: bool
  siteFixesEnabled :: bool
  mainWorldOff :: bool
  cosmeticsOff :: bool
  siteFixesOff :: bool
  breakageCount :: int
  relaxUntil :: "jsnum option"

definition DEFAULT_SITE_SETTINGS :: SiteSettings where
  "DEFAULT_SITE_SETTINGS =
     \<lparr> mode = Lite, hostPermissionGranted = False, cosmeticEnabled = False,
       siteFixesEnabled = False, mainWorldOff = False, cosmeticsOff = False,
       siteFixesOff = False, breakageCount = 0, relaxUntil = None \<rparr>"

definition MAX_PER_SITE_ENTRIES :: nat where
  "MAX_PER_SITE_ENTRIES = 500"

definition RELAX_RULE_ID_BASE :: nat where
  "RELAX_RULE_ID_BASE = 900000"

text \<open>
  \<open>perSiteCache\<close> is a JavaScript object keyed by host name: its entries are kept in
  insertion order, writing an existing key keeps its place and a new key goes last.
  That is an association list under \<open>cacheSet\<close>.
\<close>

type_synonym site_cache = "(string \<times> SiteSettings) list"

fun cacheSet :: "string \<Rightarrow> SiteSettings \<Rightarrow> site_cache \<Rightarrow> site_cache" where
  "cacheSet k v [] = [(k, v)]"
| "cacheSet k v (p # ps) = (if fst p = k then (k, v) # ps else p # cacheSet k v ps)"

definition siteOrDefault :: "site_cache \<Rightarrow> string \<Rightarrow> SiteSettings" where
  "siteOrDefault c k = (case map_of c k of Some site \<Rightarrow> site | None \<Rightarrow> DEFAULT_SITE_SETTINGS)"

record worker =
  perSiteCache :: site_cache
  dirtySettings :: bool
  settingsTimer :: bool

definition debouncePersistSettings :: "worker \<Rightarrow> worker" where
  "debouncePersistSettings w = w\<lparr>dirtySettings := True, settingsTimer := True\<rparr>"

text \<open>
  \<open>normalizeDomain\<close>. The URL parser of the platform is the parameter \<open>hostOf\<close>: the host
  name of a string that parses, \<^const>\<open>None\<close> where \<open>new URL\<close> throws.
\<close>

definition normalizeDomain :: "(string \<Rightarrow> string option) \<Rightarrow> string option \<Rightarrow> string option" where
  "normalizeDomain hostOf input =
     (case input of
        None \<Rightarrow> None
      | Some i \<Rightarrow>
          if i = [] then None
          else (let raw = (if str_includes i ''://'' then i else ''https://'' @ i) in
                case hostOf raw of
                  None \<Rightarrow> None
                | Some hn \<Rightarrow>
                    let h = toLowerCase hn in
                    if h = [] \<or> length h > 253 \<or> str_includes h '' '' then None else Some h))"

text \<open>\<open>hashDomain\<close> works on 32-bit integers (\<open>| 0\<close>); the rule id takes
  \<open>Math.abs(hash % 100000)\<close>, the remainder of the signed value without its sign.\<close>

definition hashDomain :: "string \<Rightarrow> 32 word" where
  "hashDomain domain = foldl (\<lambda>hash c. push_bit 5 hash - hash + of_nat (of_char c)) 0 domain"

definition relaxRuleId :: "string \<Rightarrow> nat" where
  "relaxRuleId domain = RELAX_RULE_ID_BASE + nat (\<bar>sint (hashDomain domain)\<bar> mod 100000)"

text \<open>\<open>prunePerSiteCache\<close>: \<open>Array.prototype.sort\<close> is stable, and so is \<^const>\<open>sort_key\<close>;
  the comparator \<open>b - a\<close> on the counts orders by descending count.\<close>

definition prunePerSiteCache :: "worker \<Rightarrow> worker" where
  "prunePerSiteCache w =
     (let entries = perSiteCache w in
      if length entries \<le> MAX_PER_SITE_ENTRIES then w
      else w\<lparr>perSiteCache :=
               take MAX_PER_SITE_ENTRIES (sort_key (\<lambda>e. - breakageCount (snd e)) entries)\<rparr>)"

datatype response =
    Failure string
  | SetModeOk FilteringMode
  | ToggleOk
  | RelaxOk jsnum
  | ReportOk bool

datatype chrome_call = UpdateSessionRules nat string | CreateAlarm string jsnum

definition handleSetMode ::
  "(string \<Rightarrow> string option) \<Rightarrow> string option \<Rightarrow> FilteringMode \<Rightarrow> worker \<Rightarrow> worker \<times> response"
where
  "handleSetMode hostOf domain m w =
     (case normalizeDomain hostOf domain of
        None \<Rightarrow> (w, Failure ''INVALID_DOMAIN'')
      | Some normalized \<Rightarrow>
          let site = siteOrDefault (perSiteCache w) normalized;
              site1 = site\<lparr>mode := m, cosmeticEnabled := (m \<noteq> Lite),
                          siteFixesEnabled := (m = Advanced)\<rparr>;
              w1 = w\<lparr>perSiteCache := cacheSet normalized site1 (perSiteCache w)\<rparr>
          in (debouncePersistSettings (prunePerSiteCache w1), SetModeOk m))"

datatype toggle_key = MainWorldOff | CosmeticsOff | SiteFixesOff

definition setToggle :: "toggle_key \<Rightarrow> bool \<Rightarrow> SiteSettings \<Rightarrow> SiteSettings" where
  "setToggle key v site =
     (case key of
        MainWorldOff \<Rightarrow> site\<lparr>mainWorldOff := v\<rparr>
      | CosmeticsOff \<Rightarrow> site\<lparr>cosmeticsOff := v\<rparr>
      | SiteFixesOff \<Rightarrow> site\<lparr>siteFixesOff := v\<rparr>)"

definition handleSetSiteToggle ::
  "(string \<Rightarrow> string option) \<Rightarrow> string option \<Rightarrow> toggle_key \<Rightarrow> bool \<Rightarrow> worker
     \<Rightarrow> worker \<times> response"
where
  "handleSetSiteToggle hostOf domain key v w =
     (case normalizeDomain hostOf domain of
        None \<Rightarrow> (w, Failure ''INVALID_DOMAIN'')
      | Some normalized \<Rightarrow>
          let site = setToggle key v (siteOrDefault (perSiteCache w) normalized);
              w1 = w\<lparr>perSiteCache := cacheSet normalized site (perSiteCache w)\<rparr>
          in (debouncePersistSettings w1, ToggleOk))"

text \<open>
  \<open>handleTemporaryRelax\<close>, called when \<open>Date.now()\<close> is \<open>now\<close>. \<open>minutes\<close> is \<open>msg.minutes\<close> as it
  came, read as a number: \<open>NaN\<close> when the field is missing or is not numeric, since the
  handler does not validate it. Beside the new state the function returns what \<open>respond\<close> is
  called with, if it is called, and the calls made to the \<open>chrome\<close> interfaces, in order.
  A failure of \<open>updateSessionRules\<close> is caught by the handler. \<open>chrome.alarms.create\<close> is
  called outside any \<open>try\<close>, after the state was written and before \<open>respond\<close>: whether it
  returns is the parameter \<open>alarmsCreate\<close>, and when it throws no response is sent.
\<close>

definition handleTemporaryRelax ::
  "(string \<Rightarrow> string option) \<Rightarrow> (string \<Rightarrow> jsnum \<Rightarrow> bool) \<Rightarrow> real \<Rightarrow> string option \<Rightarrow> jsnum
     \<Rightarrow> worker \<Rightarrow> worker \<times> response option \<times> chrome_call list"
where
  "handleTemporaryRelax hostOf alarmsCreate now domain minutes w =
     (case normalizeDomain hostOf domain of
        None \<Rightarrow> (w, Some (Failure ''INVALID_PARAMS''), [])
      | Some normalized \<Rightarrow>
          if js_less minutes 1 \<or> js_greater minutes 120
          then (w, Some (Failure ''INVALID_PARAMS''), [])
          else (let until = js_plus_times now minutes 60000;
                    site = (siteOrDefault (perSiteCache w) normalized)\<lparr>relaxUntil := Some until\<rparr>;
                    w1 = w\<lparr>perSiteCache := cacheSet normalized site (perSiteCache w)\<rparr>
                in (debouncePersistSettings w1,
                    (if alarmsCreate (''relax-'' @ normalized) minutes
                     then Some (RelaxOk until) else None),
                    [UpdateSessionRules (relaxRuleId normalized) normalized,
                     CreateAlarm (''relax-'' @ normalized) minutes])))"

definition handleReportIssue ::
  "(string \<Rightarrow> string option) \<Rightarrow> string option \<Rightarrow> worker \<Rightarrow> worker \<times> response"
where
  "handleReportIssue hostOf domain w =
     (case normalizeDomain hostOf domain of
        None \<Rightarrow> (w, Failure ''INVALID_DOMAIN'')
      | Some normalized \<Rightarrow>
          let site = siteOrDefault (perSiteCache w) normalized;
              site1 = site\<lparr>breakageCount := breakageCount site + 1\<rparr>;
              site2 = (if breakageCount site1 \<ge> 2 \<and> mode site1 \<noteq> Lite
                       then site1\<lparr>mode := Lite, cosmeticEnabled := False,
                                   siteFixesEnabled := False\<rparr>
                       else site1);
              w1 = w\<lparr>perSiteCache := cacheSet normalized site2 (perSiteCache w)\<rparr>
          in (debouncePersistSettings w1, ReportOk (breakageCount site2 \<ge> 2)))"

section \<open>Notions used by the properties\<close>

subsection \<open>The hide primitive as the only writer\<close>

text \<open>
  \<open>hidesOnly b s s'\<close>: the state \<open>s'\<close> is \<open>s\<close> after some calls of \<open>hideElement\<close>, throwing
  or not, and a change of the \<open>heuristicRemovals\<close> counter. Every classification method
  is of this kind.
\<close>

definition hidesOnly :: "browser \<Rightarrow> engine \<Rightarrow> engine \<Rightarrow> bool" where
  "hidesOnly b s s' =
     (\<exists>ns h. s' = (fold (\<lambda>n st. snd (hideElement b n st)) ns s)\<lparr>heuristicRemovals := h\<rparr>)"

text \<open>
  What holds of ProcessedSet and RemovalQueue in every reachable state: the hide counter
  is the number of nodes that were queued, no node is queued twice, a queued node is
  processed and is never queued again after its removal, every node that was queued
  carries the two suppression declarations, and a processed node that has \<open>style\<close> was
  queued.
\<close>

definition engineInvariant :: "browser \<Rightarrow> engine \<Rightarrow> bool" where
  "engineInvariant b s =
     (finite (processedNodes s)
      \<and> cosmeticHides s = card (set (removalQueue s) \<union> removed s)
      \<and> distinct (removalQueue s)
      \<and> set (removalQueue s) \<union> removed s \<subseteq> processedNodes s
      \<and> set (removalQueue s) \<inter> removed s = {}
      \<and> (\<forall>n \<in> set (removalQueue s) \<union> removed s.
            inlineStyles s n ''display'' = Some (''none'', ''important'')
            \<and> inlineStyles s n ''visibility'' = Some (''hidden'', ''important''))
      \<and> (\<forall>n \<in> processedNodes s. hasStyle b n \<longrightarrow> n \<in> set (removalQueue s) \<union> removed s))"

text \<open>The entry points of the engine that write its state, and a run of them in sequence.\<close>

datatype engine_op =
    Hide node
  | Drain
  | FastCleanup
  | Pass nat "element list"
  | Sweep node
  | Click node

definition applyOp :: "browser \<Rightarrow> engine_op \<Rightarrow> engine \<Rightarrow> engine" where
  "applyOp b op s =
     (case op of
        Hide n \<Rightarrow> snd (hideElement b n s)
      | Drain \<Rightarrow> processChunk s
      | FastCleanup \<Rightarrow> runFastCleanup b s
      | Pass k nodes \<Rightarrow> snd (snd (processNodesBudgeted b k nodes s))
      | Sweep video \<Rightarrow> nukeOverlaysNearVideo b video s
      | Click target \<Rightarrow>
          snd (clickListener b target \<lparr>defaultPrevented = False, propagationStopped = False\<rparr> s))"

definition run :: "browser \<Rightarrow> engine_op list \<Rightarrow> engine \<Rightarrow> engine" where
  "run b ops s = fold (applyOp b) ops s"

subsection \<open>Classification without a clock\<close>


subsection \<open>Example documents\<close>

definition noStyles :: styles where
  "noStyles = (\<lambda>_. Map.empty)"

text \<open>A document without elements; the examples below add to it.\<close>

definition emptyDocument :: browser where
  "emptyDocument =
     \<lparr> isHTMLElement = (\<lambda>_. False), hasStyle = (\<lambda>_. False),
       hasAttributeFn = (\<lambda>_. False),
       hasAttribute = (\<lambda>_ _. False), getAttribute = (\<lambda>_ _. None),
       className = (\<lambda>_. None), tagName = (\<lambda>_. []), src = (\<lambda>_. []),
       isConnected = (\<lambda>_. False), hasMatchesFn = (\<lambda>_. False),
       matches = (\<lambda>_ _. Some False), parentElement = (\<lambda>_. None), body = None,
       contains = (\<lambda>_ _. False), querySelector = (\<lambda>_ _. None), closest = (\<lambda>_ _. None),
       querySelectorAll = (\<lambda>_. Some []),
       getComputedStyle = (\<lambda>_ _. Some \<lparr>position = ''static'', zIndex = ''auto''\<rparr>),
       getBoundingClientRect = (\<lambda>_ _. \<lparr>rectLeft = 0, rectTop = 0, rectRight = 0,
                                         rectBottom = 0, rectWidth = 0, rectHeight = 0\<rparr>),
       innerText = (\<lambda>_ _. []), innerWidth = 0, innerHeight = 0, clock = (\<lambda>_. 0) \<rparr>"

text \<open>Node 1 is a \<open>div\<close> with class \<open>box AdSlot-top\<close>; node 2 is a text node.\<close>

definition adSlotDiv :: browser where
  "adSlotDiv = emptyDocument\<lparr> isHTMLElement := (\<lambda>n. n = 1), hasStyle := (\<lambda>n. n = 1),
      hasAttributeFn := (\<lambda>n. n = 1),
      className := (\<lambda>n. if n = 1 then Some ''box AdSlot-top'' else None) \<rparr>"

text \<open>Node 1 is an \<open>svg\<close> element with the attribute \<open>data-element\<close>: an element, but
  not an \<open>HTMLElement\<close>.\<close>

definition markedSvg :: browser where
  "markedSvg = emptyDocument\<lparr> hasStyle := (\<lambda>n. n = 1), hasAttributeFn := (\<lambda>n. n = 1),
      hasAttribute := (\<lambda>n a. n = 1 \<and> a = ''data-element'') \<rparr>"

text \<open>An engine after \<open>init\<close> in standard mode on \<open>example.org\<close>.\<close>

definition configuredEngine :: engine where
  "configuredEngine =
     initialEngine\<lparr>config := Some (buildConfig ''standard'' ''example.org''),
                   engineMode := ''standard''\<rparr>"

text \<open>
  Nodes 7, 8 and 9 are connected HTML elements with the attribute \<open>data-element\<close> and no
  parent. The clock reads 100 ms for its first three calls and 20000 ms afterwards.
\<close>

definition adDocument :: browser where
  "adDocument =
     emptyDocument\<lparr> isHTMLElement := (\<lambda>n. n \<in> {7, 8, 9}),
                     hasStyle := (\<lambda>n. n \<in> {7, 8, 9}),
                     hasAttributeFn := (\<lambda>n. n \<in> {7, 8, 9}),
                     hasAttribute := (\<lambda>n a. n \<in> {7, 8, 9} \<and> a = ''data-element''),
                     isConnected := (\<lambda>n. n \<in> {7, 8, 9}),
                     hasMatchesFn := (\<lambda>n. n \<in> {7, 8, 9}),
                     clock := (\<lambda>k. if k < 3 then 100 else 20000) \<rparr>"

definition afterFirstPass :: engine where
  "afterFirstPass = (snd (hideElement adDocument 7 configuredEngine))\<lparr>lastAdDetection := 100\<rparr>"

definition afterSecondPass :: engine where
  "afterSecondPass = afterFirstPass\<lparr>lastAdDetection := 20000\<rparr>"


text \<open>
  The same document when the fast selectors match node 3 and then node 7, where node 3 is
  an element of a foreign namespace: it has the attribute \<open>data-element\<close> but no \<open>style\<close>.
\<close>

definition foreignDocument :: browser where
  "foreignDocument =
     adDocument\<lparr> hasAttributeFn := (\<lambda>n. n \<in> {3, 7, 8, 9}),
                  hasAttribute := (\<lambda>n a. n \<in> {3, 7, 8, 9} \<and> a = ''data-element''),
                  isConnected := (\<lambda>n. n \<in> {3, 7, 8, 9}),
                  hasMatchesFn := (\<lambda>n. n \<in> {3, 7, 8, 9}),
                  querySelectorAll := (\<lambda>_. Some [3, 7]) \<rparr>"

definition markedUnstyled :: engine where
  "markedUnstyled = configuredEngine\<lparr>processedNodes := {3}\<rparr>"


subsection \<open>The click criteria\<close>







subsection \<open>Example service-worker states\<close>

text \<open>A URL parser that knows one address.\<close>

definition simpleHost :: "string \<Rightarrow> string option" where
  "simpleHost raw = (if raw = ''https://example.org'' then Some ''example.org'' else None)"

definition emptyWorker :: worker where
  "emptyWorker = \<lparr>perSiteCache = [], dirtySettings = False, settingsTimer = False\<rparr>"

text \<open>
  Two behaviours of \<open>chrome.alarms.create\<close>: one that returns for every delay, and one that
  throws when the delay is not a number.
\<close>

definition lenientAlarms :: "string \<Rightarrow> jsnum \<Rightarrow> bool" where
  "lenientAlarms alarm delay = True"

definition strictAlarms :: "string \<Rightarrow> jsnum \<Rightarrow> bool" where
  "strictAlarms alarm delay = (case delay of NaN \<Rightarrow> False | Num v \<Rightarrow> True)"

text \<open>The entry that \<open>handleTemporaryRelax\<close> writes for thirty minutes from time 1000.\<close>

definition relaxedSite :: SiteSettings where
  "relaxedSite = DEFAULT_SITE_SETTINGS\<lparr>relaxUntil := Some (Num 1801000)\<rparr>"

text \<open>The state that a relax request without a numeric duration leaves.\<close>

definition nanRelaxedWorker :: worker where
  "nanRelaxedWorker =
     \<lparr>perSiteCache = [(''example.org'', DEFAULT_SITE_SETTINGS\<lparr>relaxUntil := Some NaN\<rparr>)],
      dirtySettings = True, settingsTimer = True\<rparr>"

text \<open>501 distinct host names, and a cache that holds a default entry for each of them,
  as an imported settings bundle or 501 toggle requests that switch a flag off leave it.\<close>

definition siteName :: "nat \<Rightarrow> string" where
  "siteName i = [char_of (97 + i mod 26), char_of (97 + i div 26 mod 26)] @ ''.example''"

definition crowdedWorker :: worker where
  "crowdedWorker =
     \<lparr>perSiteCache = map (\<lambda>i. (siteName i, DEFAULT_SITE_SETTINGS)) [0..<501],
      dirtySettings = True, settingsTimer = True\<rparr>"

text \<open>The entry that \<open>handleSetMode\<close> writes for a site.\<close>

definition withMode :: "FilteringMode \<Rightarrow> SiteSettings \<Rightarrow> SiteSettings" where
  "withMode m site =
     site\<lparr>mode := m, cosmeticEnabled := (m \<noteq> Lite), siteFixesEnabled := (m = Advanced)\<rparr>"

subsection \<open>The scheme of a target address\<close>

text \<open>The scheme of a URL is what precedes its first colon, compared without regard to
  case.\<close>

definition notColon :: "char \<Rightarrow> bool" where
  "notColon c = (c \<noteq> CHR '':'')"

definition schemeOf :: "string \<Rightarrow> string" where
  "schemeOf u = toLowerCase (takeWhile notColon u)"

section \<open>Properties\<close>

subsection \<open>What the classification methods can change\<close>

lemma hideElement_heur:
  "hideElement b n (s\<lparr>heuristicRemovals := h\<rparr>)
     = (fst (hideElement b n s), (snd (hideElement b n s))\<lparr>heuristicRemovals := h\<rparr>)"
  by (simp add: hideElement_def)

lemma fold_hide_heur:
  "fold (\<lambda>n st. snd (hideElement b n st)) ns (s\<lparr>heuristicRemovals := h\<rparr>)
     = (fold (\<lambda>n st. snd (hideElement b n st)) ns s)\<lparr>heuristicRemovals := h\<rparr>"
  by (induction ns arbitrary: s) (simp_all add: hideElement_heur)

lemma hidesOnly_refl: "hidesOnly b s s"
  unfolding hidesOnly_def by (rule exI[of _ "[]"], rule exI[of _ "heuristicRemovals s"]) simp

lemma hidesOnly_trans: "hidesOnly b s s1 \<Longrightarrow> hidesOnly b s1 s2 \<Longrightarrow> hidesOnly b s s2"
proof -
  assume "hidesOnly b s s1" "hidesOnly b s1 s2"
  then obtain ns h ms g
    where a: "s1 = (fold (\<lambda>n st. snd (hideElement b n st)) ns s)\<lparr>heuristicRemovals := h\<rparr>"
    and c: "s2 = (fold (\<lambda>n st. snd (hideElement b n st)) ms s1)\<lparr>heuristicRemovals := g\<rparr>"
    unfolding hidesOnly_def by blast
  have "s2 = (fold (\<lambda>n st. snd (hideElement b n st)) (ns @ ms) s)\<lparr>heuristicRemovals := g\<rparr>"
    by (simp add: a c fold_hide_heur)
  then show ?thesis unfolding hidesOnly_def by blast
qed

lemma hidesOnly_hide: "hidesOnly b s (snd (hideElement b n s))"
  unfolding hidesOnly_def
  by (rule exI[of _ "[n]"], rule exI[of _ "heuristicRemovals s"]) (simp add: hideElement_def)

lemma hidesOnly_heur: "hidesOnly b s (s\<lparr>heuristicRemovals := h\<rparr>)"
  unfolding hidesOnly_def by (rule exI[of _ "[]"], rule exI[of _ h]) simp

lemma hidesOnly_heur_hide:
  "hidesOnly b s (snd (hideElement b n (s\<lparr>heuristicRemovals := h\<rparr>)))"
  by (rule hidesOnly_trans[OF hidesOnly_heur hidesOnly_hide])

lemma hidesOnly_nukeAdRoot: "hidesOnly b s (snd (nukeAdRoot b n s))"
  by (simp add: nukeAdRoot_def hidesOnly_hide)

lemma hidesOnly_svg: "hidesOnly b s (snd (svgFingerprint b n s))"
  by (auto simp: svgFingerprint_def Let_def hidesOnly_refl hidesOnly_hide split: option.splits)

lemma hidesOnly_overlay: "hidesOnly b s (snd (fullscreenOverlay b n s))"
proof -
  have "snd (fullscreenOverlay b n s) = s
        \<or> snd (fullscreenOverlay b n s)
            = snd (hideElement b n (s\<lparr>heuristicRemovals := heuristicRemovals s + 1\<rparr>))"
    by (auto simp: fullscreenOverlay_def Let_def split: option.splits prod.splits completion.splits)
  then show ?thesis using hidesOnly_refl hidesOnly_heur_hide by metis
qed

lemma hidesOnly_overlayOrSvg: "hidesOnly b s (snd (overlayOrSvg b n s))"
proof -
  obtain r s1 where f: "fullscreenOverlay b n s = (r, s1)" by (cases "fullscreenOverlay b n s")
  have h1: "hidesOnly b s s1" using hidesOnly_overlay[of b s n] f by simp
  show ?thesis
    using f h1 hidesOnly_svg[of b s1 n]
    by (cases r) (auto simp: overlayOrSvg_def intro: hidesOnly_trans)
qed

lemma hidesOnly_advanced: "hidesOnly b s (snd (advancedHeuristics b n s))"
  by (auto simp: advancedHeuristics_def hidesOnly_overlayOrSvg hidesOnly_heur_hide hidesOnly_refl
           split: option.splits)

lemma hidesOnly_fastStep: "hidesOnly b s (snd (fastSelectorStep b fs n s))"
proof -
  have "snd (fastSelectorStep b fs n s) = s
        \<or> snd (fastSelectorStep b fs n s) = snd (hideElement b n s)"
    by (auto simp: fastSelectorStep_def split: prod.splits completion.splits)
  then show ?thesis using hidesOnly_refl hidesOnly_hide by metis
qed

lemma hidesOnly_analyze:
  "hidesOnly b s (snd (analyzeNode b fs e s))"
  "hidesOnly b s (snd (analyzeChildren b fs cs s))"
proof (induction b fs e s and b fs cs s rule: analyzeNode_analyzeChildren.induct)
  case (1 b fs n cs s)
  obtain r0 s0 where f: "fastSelectorStep b fs n s = (r0, s0)"
    by (cases "fastSelectorStep b fs n s")
  have h0: "hidesOnly b s s0" using hidesOnly_fastStep[of b s fs n] f by simp
  let ?r = "if engineMode s0 = ''advanced'' \<and> \<not> quietMode s0
            then advancedHeuristics b n s0 else (Completed, s0)"
  obtain c s1 where r: "?r = (c, s1)" by (cases ?r)
  have h1: "hidesOnly b s0 s1"
    using r hidesOnly_advanced[of b s0 n] by (auto simp: hidesOnly_refl split: if_splits)
  have kids: "hidesOnly b s1 (snd (analyzeChildren b fs cs s1))"
    if "hasMatchesFn b n" "r0 = False" "\<not> hasAdAttribute b n"
       "\<not> (case className b n of None \<Rightarrow> False | Some c \<Rightarrow> str_includes c ''AdSlot'')"
       "\<not> (tagName b n = ''IFRAME'' \<and> CosmeticEngine_isAdNetworkUrl (src b n))"
       "c = Completed" "0 < length cs \<and> length cs < 30"
    using "1.IH"[of r0 s0 c s1] f r that by simp
  let ?tail = "if hasAdAttribute b n then nukeAdRoot b n s0
                else if (case className b n of
                           Some c \<Rightarrow> str_includes c ''AdSlot'' | None \<Rightarrow> False)
                  then nukeAdRoot b n s0
                else if tagName b n = ''IFRAME'' \<and> CosmeticEngine_isAdNetworkUrl (src b n)
                  then hideElement b n s0
                else (case (c, s1) of
                        (Threw, s1) \<Rightarrow> (Threw, s1)
                      | (Completed, s1) \<Rightarrow>
                          if length cs > 0 \<and> length cs < 30 then analyzeChildren b fs cs s1
                          else (Completed, s1))"
  have rest: "hidesOnly b s0 (snd ?tail)" if "hasMatchesFn b n" "r0 = False"
    using h1 kids that
    by (cases c) (auto simp: hidesOnly_refl hidesOnly_hide hidesOnly_nukeAdRoot
                       intro: hidesOnly_trans)
  have eq: "analyzeNode b fs (Element n cs) s
              = (if \<not> hasMatchesFn b n then (Completed, s)
                 else if r0 then (Completed, s0) else ?tail)"
    unfolding analyzeNode.simps f prod.case r by (cases r0) simp_all
  show ?case
  proof (cases "hasMatchesFn b n")
    case False
    then show ?thesis unfolding eq by (simp add: hidesOnly_refl)
  next
    case True
    show ?thesis
    proof (cases r0)
      case True
      with \<open>hasMatchesFn b n\<close> h0 show ?thesis unfolding eq by simp
    next
      case False
      have "hidesOnly b s (snd ?tail)"
        using hidesOnly_trans[OF h0 rest[OF \<open>hasMatchesFn b n\<close>]] False by simp
      with \<open>hasMatchesFn b n\<close> False show ?thesis unfolding eq by simp
    qed
  qed
next
  case (2 b fs s)
  show ?case by (simp add: hidesOnly_refl)
next
  case (3 b fs c cs s)
  show ?case
  proof (cases "eid c \<in> processedNodes s")
    case True
    then show ?thesis using "3.IH"(1) by simp
  next
    case False
    obtain r s1 where an: "analyzeNode b fs c s = (r, s1)" by (cases "analyzeNode b fs c s")
    have h1: "hidesOnly b s s1" using "3.IH"(2)[OF False] an by simp
    show ?thesis
    proof (cases r)
      case Completed
      then show ?thesis using False an h1 "3.IH"(3)[OF False, of r s1]
        by (auto intro: hidesOnly_trans)
    next
      case Threw
      then show ?thesis using False an h1 by simp
    qed
  qed
qed

lemma fold_hide_frame:
  "quietMode (fold (\<lambda>n st. snd (hideElement b n st)) ns s) = quietMode s
   \<and> lastAdDetection (fold (\<lambda>n st. snd (hideElement b n st)) ns s) = lastAdDetection s
   \<and> config (fold (\<lambda>n st. snd (hideElement b n st)) ns s) = config s
   \<and> engineMode (fold (\<lambda>n st. snd (hideElement b n st)) ns s) = engineMode s
   \<and> removed (fold (\<lambda>n st. snd (hideElement b n st)) ns s) = removed s
   \<and> cosmeticHides s \<le> cosmeticHides (fold (\<lambda>n st. snd (hideElement b n st)) ns s)
   \<and> processedNodes s \<subseteq> processedNodes (fold (\<lambda>n st. snd (hideElement b n st)) ns s)"
proof (induction ns arbitrary: s)
  case Nil
  show ?case by simp
next
  case (Cons n ns)
  have step: "quietMode (snd (hideElement b n s)) = quietMode s
      \<and> lastAdDetection (snd (hideElement b n s)) = lastAdDetection s
      \<and> config (snd (hideElement b n s)) = config s
      \<and> engineMode (snd (hideElement b n s)) = engineMode s
      \<and> removed (snd (hideElement b n s)) = removed s
      \<and> cosmeticHides s \<le> cosmeticHides (snd (hideElement b n s))
      \<and> processedNodes s \<subseteq> processedNodes (snd (hideElement b n s))"
    by (auto simp: hideElement_def)
  show ?case using Cons.IH[of "snd (hideElement b n s)"] step by auto
qed

lemma hidesOnly_frame:
  assumes "hidesOnly b s s'"
  shows "quietMode s' = quietMode s" "lastAdDetection s' = lastAdDetection s"
    "config s' = config s" "engineMode s' = engineMode s" "removed s' = removed s"
    "cosmeticHides s \<le> cosmeticHides s'" "processedNodes s \<subseteq> processedNodes s'"
proof -
  from assms obtain ns h
    where eq: "s' = (fold (\<lambda>n st. snd (hideElement b n st)) ns s)\<lparr>heuristicRemovals := h\<rparr>"
    unfolding hidesOnly_def by blast
  show "quietMode s' = quietMode s" "lastAdDetection s' = lastAdDetection s"
    "config s' = config s" "engineMode s' = engineMode s" "removed s' = removed s"
    "cosmeticHides s \<le> cosmeticHides s'" "processedNodes s \<subseteq> processedNodes s'"
    using fold_hide_frame[of b ns s] by (simp_all add: eq)
qed

lemma inv_hide: "engineInvariant b s \<Longrightarrow> engineInvariant b (snd (hideElement b n s))"
proof -
  assume inv: "engineInvariant b s"
  from inv have fin: "finite (processedNodes s)"
    and cnt: "cosmeticHides s = card (set (removalQueue s) \<union> removed s)"
    and dist: "distinct (removalQueue s)"
    and sub: "set (removalQueue s) \<union> removed s \<subseteq> processedNodes s"
    and disj: "set (removalQueue s) \<inter> removed s = {}"
    and sty: "\<forall>m \<in> set (removalQueue s) \<union> removed s.
            inlineStyles s m ''display'' = Some (''none'', ''important'')
            \<and> inlineStyles s m ''visibility'' = Some (''hidden'', ''important'')"
    and has: "\<forall>m \<in> processedNodes s. hasStyle b m \<longrightarrow> m \<in> set (removalQueue s) \<union> removed s"
    unfolding engineInvariant_def by blast+
  let ?s = "snd (hideElement b n s)"
  consider (old) "n \<in> processedNodes s"
    | (bare) "n \<notin> processedNodes s" "\<not> hasStyle b n"
    | (styled) "n \<notin> processedNodes s" "hasStyle b n"
    by blast
  then show ?thesis
  proof cases
    case old
    then show ?thesis using inv by (simp add: hideElement_def)
  next
    case bare
    then have eq: "?s = s\<lparr>processedNodes := insert n (processedNodes s)\<rparr>"
      by (simp add: hideElement_def)
    show ?thesis
      unfolding eq engineInvariant_def
      using fin cnt dist sub disj sty has bare by auto
  next
    case styled
    from sub styled have nq: "n \<notin> set (removalQueue s)" and nr: "n \<notin> removed s" by auto
    have p: "processedNodes ?s = insert n (processedNodes s)"
      and q: "removalQueue ?s = removalQueue s @ [n]"
      and r: "removed ?s = removed s"
      and c: "cosmeticHides ?s = cosmeticHides s + 1"
      and st: "inlineStyles ?s = setProperty n ''visibility'' ''hidden'' ''important''
                                  (setProperty n ''display'' ''none'' ''important'' (inlineStyles s))"
      using styled by (simp_all add: hideElement_def)
    have finq: "finite (set (removalQueue s) \<union> removed s)"
      using fin sub by (rule rev_finite_subset)
    have "finite (processedNodes ?s)" using fin p by simp
    moreover have "cosmeticHides ?s = card (set (removalQueue ?s) \<union> removed ?s)"
    proof -
      have "set (removalQueue ?s) \<union> removed ?s = insert n (set (removalQueue s) \<union> removed s)"
        using q r by auto
      then show ?thesis using finq nq nr cnt c by simp
    qed
    moreover have "distinct (removalQueue ?s)" using dist nq q by simp
    moreover have "set (removalQueue ?s) \<union> removed ?s \<subseteq> processedNodes ?s"
      using sub p q r by auto
    moreover have "set (removalQueue ?s) \<inter> removed ?s = {}" using disj nr q r by auto
    moreover have "\<forall>m \<in> set (removalQueue ?s) \<union> removed ?s.
            inlineStyles ?s m ''display'' = Some (''none'', ''important'')
            \<and> inlineStyles ?s m ''visibility'' = Some (''hidden'', ''important'')"
      using sty q r st by (auto simp: setProperty_def)
    moreover have "\<forall>m \<in> processedNodes ?s. hasStyle b m \<longrightarrow> m \<in> set (removalQueue ?s) \<union> removed ?s"
      using has p q r by auto
    ultimately show ?thesis unfolding engineInvariant_def by blast
  qed
qed

lemma inv_heur: "engineInvariant b (s\<lparr>heuristicRemovals := h\<rparr>) = engineInvariant b s"
  by (simp add: engineInvariant_def)

lemma inv_fold_hide:
  "engineInvariant b s \<Longrightarrow> engineInvariant b (fold (\<lambda>n st. snd (hideElement b n st)) ns s)"
  by (induction ns arbitrary: s) (simp_all add: inv_hide)

lemma inv_hidesOnly: "hidesOnly b s s' \<Longrightarrow> engineInvariant b s \<Longrightarrow> engineInvariant b s'"
  unfolding hidesOnly_def by (auto simp: inv_heur inv_fold_hide)

lemma inv_chunkLoop: "engineInvariant b s \<Longrightarrow> engineInvariant b (chunkLoop p s)"
proof (induction p s rule: chunkLoop.induct)
  case (1 processed s)
  show ?case
  proof (cases "removalQueue s \<noteq> [] \<and> processed < IDLE_BATCH_SIZE")
    case True
    then obtain x q where q: "removalQueue s = x # q" by (cases "removalQueue s") auto
    have "engineInvariant b (s\<lparr>removalQueue := tl (removalQueue s),
                 removed := insert (hd (removalQueue s)) (removed s)\<rparr>)"
      using "1.prems" q unfolding engineInvariant_def by auto
    from "1.IH"[OF True this] show ?thesis using True by (subst chunkLoop.simps) simp
  next
    case False
    then show ?thesis using "1.prems" by (subst chunkLoop.simps) auto
  qed
qed

lemma hidesOnly_hideEach: "hidesOnly b s (hideEach b els s)"
proof (induction els arbitrary: s)
  case Nil
  show ?case by (simp add: hidesOnly_refl)
next
  case (Cons el els)
  obtain r s1 where h: "hideElement b el s = (r, s1)" by (cases "hideElement b el s")
  have h1: "hidesOnly b s s1" using hidesOnly_hide[of b s el] h by simp
  show ?case using h h1 Cons.IH[of s1] by (cases r) (auto intro: hidesOnly_trans)
qed

lemma hidesOnly_fastCleanup: "hidesOnly b s (runFastCleanup b s)"
  by (auto simp: runFastCleanup_def Let_def hidesOnly_refl hidesOnly_hideEach split: option.splits)

lemma hidesOnly_budgetLoop: "hidesOnly b s (snd (snd (budgetLoop b d fs k nodes s)))"
proof (induction nodes arbitrary: k s)
  case Nil
  show ?case by (simp add: hidesOnly_refl)
next
  case (Cons nd rest)
  obtain r s1 where an: "analyzeNode b fs nd s = (r, s1)" by (cases "analyzeNode b fs nd s")
  have h1: "hidesOnly b s s1" using hidesOnly_analyze(1)[of b s fs nd] an by simp
  show ?case
    using an h1 Cons.IH[where k = "Suc k" and s = s] Cons.IH[where k = "Suc k" and s = s1]
    by (cases r) (auto simp: hidesOnly_refl intro: hidesOnly_trans simp del: analyzeNode.simps)
qed

lemma hidesOnly_overlayStep: "hidesOnly b s (overlayStep b video vRect el s)"
  by (auto simp: overlayStep_def Let_def hidesOnly_refl hidesOnly_hide split: option.splits)

lemma hidesOnly_fold_overlay: "hidesOnly b s (fold (overlayStep b video vRect) els s)"
proof (induction els arbitrary: s)
  case Nil
  show ?case by (simp add: hidesOnly_refl)
next
  case (Cons el els)
  show ?case
    using hidesOnly_overlayStep[of b s video vRect el]
      Cons.IH[of "overlayStep b video vRect el s"]
    by (auto intro: hidesOnly_trans)
qed

lemma hidesOnly_sweep: "hidesOnly b s (nukeOverlaysNearVideo b video s)"
  by (auto simp: nukeOverlaysNearVideo_def Let_def hidesOnly_refl hidesOnly_fold_overlay
           split: option.splits)

lemma hidesOnly_click: "hidesOnly b s (snd (clickListener b target e s))"
  by (auto simp: clickListener_def Let_def hidesOnly_refl hidesOnly_hide split: option.splits)

lemma inv_quietUpdate: "engineInvariant b (snd (quietUpdate b k s)) = engineInvariant b s"
  by (simp add: quietUpdate_def engineInvariant_def)

lemma inv_pass:
  "engineInvariant b s \<Longrightarrow> engineInvariant b (snd (snd (processNodesBudgeted b k nodes s)))"
proof (cases "config s")
  case None
  assume "engineInvariant b s"
  with None show ?thesis by (simp add: processNodesBudgeted_def)
next
  case (Some cfg)
  assume inv: "engineInvariant b s"
  let ?l = "budgetLoop b (clock b k + OBSERVER_BUDGET_MS) (join '', '' (fastSelectors cfg)) (Suc k) nodes s"
  obtain k1 c s1 where l: "?l = (k1, c, s1)" by (cases ?l) auto
  have "engineInvariant b s1"
    using hidesOnly_budgetLoop[of b s "clock b k + OBSERVER_BUDGET_MS" "join '', '' (fastSelectors cfg)" "Suc k" nodes] l inv
    by (auto intro: inv_hidesOnly)
  then show ?thesis using Some l inv_quietUpdate[of b k1 s1]
    by (cases c) (auto simp: processNodesBudgeted_def Let_def split: prod.splits)
qed

lemma inv_applyOp: "engineInvariant b s \<Longrightarrow> engineInvariant b (applyOp b op s)"
  by (cases op)
     (auto simp: applyOp_def processChunk_def inv_hide inv_chunkLoop inv_pass
           intro: inv_hidesOnly[OF hidesOnly_fastCleanup] inv_hidesOnly[OF hidesOnly_sweep]
                  inv_hidesOnly[OF hidesOnly_click])

lemma inv_run: "engineInvariant b s \<Longrightarrow> engineInvariant b (run b ops s)"
  unfolding run_def by (induction ops arbitrary: s) (simp_all add: inv_applyOp)

lemma inv_initial: "engineInvariant b (initialEngine\<lparr>config := cfg, engineMode := m\<rparr>)"
  by (simp add: engineInvariant_def initialEngine_def)

subsection \<open>The example pass\<close>

lemma cfg_simp: "config configuredEngine = Some (buildConfig ''standard'' ''example.org'')"
  by (simp add: configuredEngine_def)

lemma walk_none: "ancestorWalk b st None d r = r"
  by (subst ancestorWalk.simps) simp

lemma join_ne: "join '', '' (fastSelectors (buildConfig ''standard'' ''example.org'')) \<noteq> []"
  by (simp add: buildConfig_def)

lemma hide7: "hideElement adDocument 7 configuredEngine
               = (Completed, snd (hideElement adDocument 7 configuredEngine))"
  by (simp add: hideElement_def adDocument_def emptyDocument_def configuredEngine_def
        initialEngine_def)

lemma analyze7:
  "fs \<noteq> [] \<Longrightarrow> analyzeNode adDocument fs (Element 7 []) configuredEngine
     = (Completed, snd (hideElement adDocument 7 configuredEngine))"
proof -
  assume fs: "fs \<noteq> []"
  have d: "hasMatchesFn adDocument 7" "matches adDocument 7 fs = Some False"
    "hasAdAttribute adDocument 7" "parentElement adDocument 7 = None"
    by (simp_all add: adDocument_def emptyDocument_def hasAdAttribute_def)
  show ?thesis
    using hide7 by (simp add: d fastSelectorStep_def nukeAdRoot_def walk_none)
qed

lemma pass1:
  "processNodesBudgeted adDocument 0 [Element 7 []] configuredEngine = (3, Completed, afterFirstPass)"
proof -
  let ?fs = "join '', '' (fastSelectors (buildConfig ''standard'' ''example.org''))"
  have c: "clock adDocument = (\<lambda>k. if k < 3 then 100 else 20000)"
    by (simp add: adDocument_def emptyDocument_def)
  have i: "isConnected adDocument 7" by (simp add: adDocument_def emptyDocument_def)
  have p: "7 \<notin> processedNodes configuredEngine"
    by (simp add: configuredEngine_def initialEngine_def)
  have a7: "analyzeNode adDocument ?fs (Element 7 []) configuredEngine
              = (Completed, snd (hideElement adDocument 7 configuredEngine))"
    by (rule analyze7[OF join_ne])
  have loop: "budgetLoop adDocument 108 ?fs (Suc 0) [Element 7 []] configuredEngine
                = (2, Completed, snd (hideElement adDocument 7 configuredEngine))"
    by (simp add: c i p a7 del: analyzeNode.simps)
  have q: "quietUpdate adDocument 2 (snd (hideElement adDocument 7 configuredEngine))
             = (3, afterFirstPass)"
    by (simp add: quietUpdate_def c hideElement_def adDocument_def emptyDocument_def
          configuredEngine_def initialEngine_def afterFirstPass_def)
  show ?thesis
    unfolding processNodesBudgeted_def cfg_simp
    by (simp add: Let_def c OBSERVER_BUDGET_MS_def loop q del: budgetLoop.simps)
qed

section \<open>Properties of the main-world shield\<close>

text \<open>
  Claim C6. For a string fragment, the wrapped \<open>insertAdjacentHTML\<close> returns without
  calling the original exactly when the fragment is longer than 200 characters and one of
  the ad markers occurs in it; in every other case, and for an argument that is not a
  string, it calls the original with the arguments it received. In particular a fragment
  of 250 characters that ends with a marker is blocked, and the same fragment cut to 150
  characters is passed on.
\<close>

theorem insert_markup_blocked_iff:
  "patchedInsertAdjacentHTML pos html =
     (if (\<exists>h. html = HtmlString h \<and> length h > 200 \<and> (\<exists>m \<in> set AD_HTML_MARKERS. sublist m h))
      then BlockedSilently else CallsOriginalInsert pos html)"
  by (cases html)
     (auto simp: patchedInsertAdjacentHTML_def hasAdMarkers_def str_includes_def list_ex_iff)

theorem insert_markup_blocked_iff_witness:
  "patchedInsertAdjacentHTML ''beforeend'' (HtmlString (replicate 238 CHR ''x'' @ ''data-element''))
     = BlockedSilently
   \<and> patchedInsertAdjacentHTML ''beforeend'' (HtmlString (replicate 138 CHR ''x'' @ ''data-element''))
     = CallsOriginalInsert ''beforeend'' (HtmlString (replicate 138 CHR ''x'' @ ''data-element''))"
proof -
  have m: "''data-element'' \<in> set AD_HTML_MARKERS"
    by (simp add: AD_HTML_MARKERS_def)
  have sub: "sublist ''data-element'' (replicate 238 CHR ''x'' @ ''data-element'')"
    unfolding sublist_def by (intro exI[of _ "replicate 238 CHR ''x''"] exI[of _ "[]"]) simp
  have long: "length (replicate 238 CHR ''x'' @ ''data-element'') > 200" by simp
  have short: "\<not> length (replicate 138 CHR ''x'' @ ''data-element'') > 200" by simp
  from m sub long short show ?thesis
    using insert_markup_blocked_iff[of "''beforeend''" "HtmlString (replicate 238 CHR ''x'' @ ''data-element'')"]
      insert_markup_blocked_iff[of "''beforeend''" "HtmlString (replicate 138 CHR ''x'' @ ''data-element'')"]
    by auto
qed

text \<open>
  Claim C7, as amended. The wrapped \<open>window.open\<close> calls the original, unchanged, for an
  empty or missing target, for the exact target \<open>about:blank\<close> and for a target that starts
  with \<open>blob:\<close> or \<open>data:\<close> in lower case; otherwise it returns \<open>null\<close> without calling the
  original when the lower-cased target contains one of the ad-network patterns or one of
  the two keywords; every other target goes to the original unchanged. In particular
  \<open>https://ads.exoclick.com/x\<close> is blocked, and the empty string and \<open>blob:abcd\<close> are
  allowed.
\<close>

theorem open_decision:
  "patchedOpen url name specs =
     (let u = (case url of None \<Rightarrow> [] | Some x \<Rightarrow> x) in
      if u = [] \<or> u = ''about:blank'' \<or> prefix ''blob:'' u \<or> prefix ''data:'' u
      then CallsOriginalOpen url name specs
      else if (\<exists>p \<in> set (AD_URL_PATTERNS @ [''popunder'', ''clickunder'']). sublist p (toLowerCase u))
      then ReturnsNull
      else CallsOriginalOpen url name specs)"
proof -
  define u where "u = (case url of None \<Rightarrow> [] | Some x \<Rightarrow> x)"
  show ?thesis
  proof (cases "u = [] \<or> u = ''about:blank'' \<or> prefix ''blob:'' u \<or> prefix ''data:'' u")
    case True
    then show ?thesis
      unfolding u_def by (auto simp: patchedOpen_def Let_def startsWith_def)
  next
    case False
    then have "u \<noteq> []" by simp
    then have net: "isAdNetworkUrl u \<longleftrightarrow> (\<exists>p \<in> set AD_URL_PATTERNS. sublist p (toLowerCase u))"
      by (simp add: isAdNetworkUrl_def Let_def list_ex_iff str_includes_def)
    have "(\<exists>p \<in> set (AD_URL_PATTERNS @ [''popunder'', ''clickunder'']). sublist p (toLowerCase u))
            \<longleftrightarrow> isAdNetworkUrl u \<or> str_includes (toLowerCase u) ''popunder''
                  \<or> str_includes (toLowerCase u) ''clickunder''"
      using net by (auto simp: str_includes_def)
    with False show ?thesis
      unfolding u_def by (auto simp: patchedOpen_def Let_def startsWith_def)
  qed
qed

theorem open_decision_witness:
  "patchedOpen (Some ''https://ads.exoclick.com/x'') None None = ReturnsNull
   \<and> patchedOpen (Some '''') None None = CallsOriginalOpen (Some '''') None None
   \<and> patchedOpen None None None = CallsOriginalOpen None None None
   \<and> patchedOpen (Some ''blob:abcd'') None None = CallsOriginalOpen (Some ''blob:abcd'') None None
   \<and> patchedOpen (Some ''https://example.org/docs'') None None
       = CallsOriginalOpen (Some ''https://example.org/docs'') None None"
proof -
  have low: "toLowerCase ''https://ads.exoclick.com/x'' = ''https://ads.exoclick.com/x''"
            "toLowerCase ''https://example.org/docs'' = ''https://example.org/docs''"
    by (simp_all add: toLowerCase_def lowerChar_def)
  show ?thesis
    using open_decision[of "Some ''https://ads.exoclick.com/x''" None None]
      open_decision[of "Some ''''" None None] open_decision[of None None None]
      open_decision[of "Some ''blob:abcd''" None None]
      open_decision[of "Some ''https://example.org/docs''" None None]
    by (simp add: low AD_URL_PATTERNS_def sublist_code(3))
qed

text \<open>
  The claim as stated, unconditional delegation for every target with the scheme \<open>blob:\<close>
  or \<open>data:\<close> and for \<open>about:blank\<close>, fails: the test on the prefix is case-sensitive and
  the test on \<open>about:blank\<close> is an equality. \<open>BLOB:PopUnder\<close> has the scheme \<open>blob\<close>, and
  \<open>about:blank#popads\<close> is \<open>about:blank\<close> with a fragment; both reach the pattern test and
  are blocked.
\<close>

theorem open_scheme_counterexample:
  "schemeOf ''BLOB:PopUnder'' = ''blob''
   \<and> patchedOpen (Some ''BLOB:PopUnder'') None None = ReturnsNull
   \<and> prefix ''about:blank'' ''about:blank#popads''
   \<and> patchedOpen (Some ''about:blank#popads'') None None = ReturnsNull"
proof -
  have low: "toLowerCase ''BLOB:PopUnder'' = ''blob:popunder''"
    "toLowerCase ''about:blank#popads'' = ''about:blank#popads''"
    "toLowerCase ''BLOB'' = ''blob''"
    by code_simp+
  have sch: "schemeOf ''BLOB:PopUnder'' = ''blob''"
    by (simp add: schemeOf_def notColon_def low)
  have b1: "patchedOpen (Some ''BLOB:PopUnder'') None None = ReturnsNull"
    by (simp add: patchedOpen_def startsWith_def isAdNetworkUrl_def low AD_URL_PATTERNS_def
          str_includes_def sublist_code(3))
  have b2: "patchedOpen (Some ''about:blank#popads'') None None = ReturnsNull"
    by (simp add: patchedOpen_def startsWith_def isAdNetworkUrl_def low AD_URL_PATTERNS_def
          str_includes_def sublist_code(3))
  show ?thesis using sch b1 b2 by simp
qed

text \<open>
  Claim C8, as amended. The wrapped \<open>appendChild\<close> always calls the original with the
  receiver and the child it was given. When the child is an HTML element that carries an
  ad-marker signature, its \<open>display\<close> and \<open>visibility\<close> declarations are set to \<open>none\<close> and
  \<open>hidden\<close> with priority \<open>important\<close> and no other declaration of any node changes; for
  every other child no declaration changes at all.
\<close>

theorem appendChild_frame:
  "snd (patchedAppendChild b this newChild st) = CallsOriginalAppend this newChild
   \<and> (isHTMLElement b newChild \<and> isAdMarkerElement b newChild \<longrightarrow>
        fst (patchedAppendChild b this newChild st) newChild ''display''
          = Some (''none'', ''important'')
        \<and> fst (patchedAppendChild b this newChild st) newChild ''visibility''
          = Some (''hidden'', ''important'')
        \<and> (\<forall>n p. \<not> (n = newChild \<and> (p = ''display'' \<or> p = ''visibility'')) \<longrightarrow>
              fst (patchedAppendChild b this newChild st) n p = st n p))
   \<and> (\<not> (isHTMLElement b newChild \<and> isAdMarkerElement b newChild) \<longrightarrow>
        fst (patchedAppendChild b this newChild st) = st)"
proof (cases "isHTMLElement b newChild \<and> isAdMarkerElement b newChild")
  case True
  then have styled: "fst (patchedAppendChild b this newChild st)
      = setProperty newChild ''visibility'' ''hidden'' ''important''
          (setProperty newChild ''display'' ''none'' ''important'' st)"
    by (simp add: patchedAppendChild_def)
  show ?thesis
    unfolding styled using True by (auto simp: patchedAppendChild_def setProperty_def)
next
  case False
  then show ?thesis by (auto simp: patchedAppendChild_def)
qed

theorem appendChild_frame_witness:
  "isHTMLElement adSlotDiv 1 \<and> isAdMarkerElement adSlotDiv 1
   \<and> patchedAppendChild adSlotDiv 0 1 noStyles
       = (noStyles(1 := [''display'' \<mapsto> (''none'', ''important''),
                                  ''visibility'' \<mapsto> (''hidden'', ''important'')]),
          CallsOriginalAppend 0 1)
   \<and> \<not> isHTMLElement adSlotDiv 2
   \<and> patchedAppendChild adSlotDiv 0 2 noStyles = (noStyles, CallsOriginalAppend 0 2)"
proof -
  have h: "isHTMLElement adSlotDiv 1" "isAdMarkerElement adSlotDiv 1" "\<not> isHTMLElement adSlotDiv 2"
    by (simp_all add: adSlotDiv_def emptyDocument_def isAdMarkerElement_def str_includes_def sublist_code(3))
  have a: "fst (patchedAppendChild adSlotDiv 0 1 noStyles) =
       noStyles(1 := [''display'' \<mapsto> (''none'', ''important''),
                                  ''visibility'' \<mapsto> (''hidden'', ''important'')])"
    using appendChild_frame[of adSlotDiv 0 1 noStyles] h
    by (intro ext) (auto simp: fun_upd_def noStyles_def)
  show ?thesis using h a appendChild_frame[of adSlotDiv 0 1 noStyles]
     appendChild_frame[of adSlotDiv 0 2 noStyles]
    by (simp add: prod_eq_iff)
qed

text \<open>
  The claim as stated, for every node with a marker, fails on the guard
  \<open>newChild instanceof HTMLElement\<close>: an \<open>svg\<close> element with the attribute \<open>data-element\<close>
  has the signature and is appended with its styles untouched.
\<close>

theorem appendChild_non_html_counterexample:
  "isAdMarkerElement markedSvg 1
   \<and> fst (patchedAppendChild markedSvg 0 1 noStyles) 1 ''display'' = None
   \<and> fst (patchedAppendChild markedSvg 0 1 noStyles) 1 ''visibility'' = None"
  by (simp add: markedSvg_def emptyDocument_def isAdMarkerElement_def patchedAppendChild_def
        noStyles_def)

section \<open>Properties of the cosmetic engine\<close>

lemma quietUpdate_counter: "cosmeticHides (snd (quietUpdate b k s)) = cosmeticHides s"
  by (simp add: quietUpdate_def)

text \<open>
  Claim C1, as amended. Let a deferred pass run with a config and complete. If the hide
  counter is still zero when the pass ends, then quiet mode is on afterwards exactly when
  it was on before or the clock read at the end of the pass is more than 10000 ms past
  \<open>lastAdDetection\<close>. If the pass hid at least one node, then the end of the pass turns
  quiet mode off and sets \<open>lastAdDetection\<close> to the clock read at the end of the pass.
  \<open>hideElement\<close> itself changes neither \<open>quietMode\<close> nor \<open>lastAdDetection\<close>.
\<close>

theorem quiet_mode_set_at_pass_end:
  assumes cfg: "config s = Some cfg"
    and pass: "processNodesBudgeted b k nodes s = (k', Completed, s')"
  shows "(cosmeticHides s' = 0 \<longrightarrow>
            quietMode s' = (quietMode s \<or> clock b (k' - 1) - lastAdDetection s > 10000))
         \<and> (cosmeticHides s < cosmeticHides s' \<longrightarrow>
              \<not> quietMode s' \<and> lastAdDetection s' = clock b (k' - 1))
         \<and> quietMode (snd (hideElement b n s)) = quietMode s
         \<and> lastAdDetection (snd (hideElement b n s)) = lastAdDetection s"
proof -
  let ?l = "budgetLoop b (clock b k + OBSERVER_BUDGET_MS) (join '', '' (fastSelectors cfg)) (Suc k) nodes s"
  obtain k1 c s1 where l: "?l = (k1, c, s1)" by (cases ?l) auto
  have h: "hidesOnly b s s1" using hidesOnly_budgetLoop[of b s _ _ "Suc k" nodes] l by (metis snd_conv)
  from pass cfg l have c: "c = Completed" and q: "quietUpdate b k1 s1 = (k', s')"
    by (cases c; auto simp: processNodesBudgeted_def Let_def split: prod.splits)+
  note fr = hidesOnly_frame[OF h]
  have hide: "quietMode (snd (hideElement b n s)) = quietMode s
         \<and> lastAdDetection (snd (hideElement b n s)) = lastAdDetection s"
    by (simp add: hideElement_def)
  show ?thesis
    using q fr(1,2,6) hide
    by (auto simp: quietUpdate_def QUIET_MODE_THRESHOLD_MS_def split: if_splits)
qed

theorem quiet_mode_set_at_pass_end_witness:
  "config configuredEngine = Some (buildConfig ''standard'' ''example.org'')
   \<and> processNodesBudgeted adDocument 0 [Element 7 []] configuredEngine = (3, Completed, afterFirstPass)
   \<and> cosmeticHides configuredEngine < cosmeticHides afterFirstPass
   \<and> \<not> quietMode afterFirstPass
   \<and> lastAdDetection afterFirstPass = clock adDocument 2
   \<and> processNodesBudgeted adDocument 3 [] configuredEngine
       = (5, Completed, configuredEngine\<lparr>quietMode := True\<rparr>)
   \<and> cosmeticHides (configuredEngine\<lparr>quietMode := True\<rparr>) = 0
   \<and> clock adDocument 4 - lastAdDetection configuredEngine > 10000
   \<and> quietMode (configuredEngine\<lparr>quietMode := True\<rparr>)"
proof -
  have lt: "cosmeticHides configuredEngine < cosmeticHides afterFirstPass"
    by (simp add: afterFirstPass_def hideElement_def adDocument_def emptyDocument_def
          configuredEngine_def initialEngine_def)
  have c: "clock adDocument = (\<lambda>k. if k < 3 then 100 else 20000)"
    by (simp add: adDocument_def emptyDocument_def)
  have q: "quietUpdate adDocument 4 configuredEngine = (5, configuredEngine\<lparr>quietMode := True\<rparr>)"
    by (simp add: quietUpdate_def c QUIET_MODE_THRESHOLD_MS_def configuredEngine_def
          initialEngine_def)
  have pass0: "processNodesBudgeted adDocument 3 [] configuredEngine
                 = (5, Completed, configuredEngine\<lparr>quietMode := True\<rparr>)"
    unfolding processNodesBudgeted_def cfg_simp by (simp add: Let_def q)
  have z: "cosmeticHides (configuredEngine\<lparr>quietMode := True\<rparr>) = 0"
    "lastAdDetection configuredEngine = 0"
    by (simp_all add: configuredEngine_def initialEngine_def)
  show ?thesis
    using quiet_mode_set_at_pass_end[OF cfg_simp pass1, of 7]
      quiet_mode_set_at_pass_end[OF cfg_simp pass0, of 7] lt cfg_simp pass1 pass0 z
    by (simp add: c)
qed

text \<open>
  The claim as stated fails twice. The first pass of the example hides node 7 at 100 ms.
  The second pass, at 20000 ms, has no candidate and hides nothing, more than 10 s after
  that hide, and quiet mode stays off: the test \<open>counters.cosmeticHides === 0\<close> reads the
  counter of all hides since the page loaded. And a hide while quiet mode is on leaves it
  on and leaves the timestamp alone until a pass ends.
\<close>

theorem quiet_mode_counterexample:
  "processNodesBudgeted adDocument 0 [Element 7 []] configuredEngine = (3, Completed, afterFirstPass)
   \<and> lastAdDetection afterFirstPass = 100
   \<and> processNodesBudgeted adDocument 3 [] afterFirstPass = (5, Completed, afterSecondPass)
   \<and> cosmeticHides afterSecondPass = cosmeticHides afterFirstPass
   \<and> clock adDocument 4 - lastAdDetection afterFirstPass > 10000
   \<and> \<not> quietMode afterSecondPass
   \<and> quietMode (snd (hideElement adDocument 7 (configuredEngine\<lparr>quietMode := True\<rparr>)))
   \<and> lastAdDetection (snd (hideElement adDocument 7 (configuredEngine\<lparr>quietMode := True\<rparr>))) = 0"
proof -
  have c: "clock adDocument = (\<lambda>k. if k < 3 then 100 else 20000)"
    by (simp add: adDocument_def emptyDocument_def)
  have f: "config afterFirstPass = Some (buildConfig ''standard'' ''example.org'')"
     "cosmeticHides afterFirstPass = 1" "lastAdDetection afterFirstPass = 100"
     "\<not> quietMode afterFirstPass"
    by (simp_all add: afterFirstPass_def hideElement_def adDocument_def emptyDocument_def
          configuredEngine_def initialEngine_def)
  have q: "quietUpdate adDocument 4 afterFirstPass = (5, afterSecondPass)"
    by (simp add: quietUpdate_def c f afterSecondPass_def)
  have p2: "processNodesBudgeted adDocument 3 [] afterFirstPass = (5, Completed, afterSecondPass)"
    unfolding processNodesBudgeted_def f by (simp add: Let_def q)
  have s2: "cosmeticHides afterSecondPass = 1" "\<not> quietMode afterSecondPass"
    by (simp_all add: afterSecondPass_def f)
  have h: "quietMode (snd (hideElement adDocument 7 (configuredEngine\<lparr>quietMode := True\<rparr>)))"
    "lastAdDetection (snd (hideElement adDocument 7 (configuredEngine\<lparr>quietMode := True\<rparr>))) = 0"
    by (simp_all add: hideElement_def configuredEngine_def initialEngine_def)
  show ?thesis using pass1 p2 f s2 h by (simp add: c)
qed




text \<open>
  What \<open>hideElement\<close> does, case by case, and what holds after any sequence of engine
  operations from the initial state. A node that is already processed is left as it is.
  A node with \<open>style\<close> is added to ProcessedSet, suppressed, counted and queued. A node
  without \<open>style\<close> is added to ProcessedSet and nothing else.
\<close>

lemma hide_primitive_cases:
  "(el \<in> processedNodes s \<longrightarrow> hideElement b el s = (Completed, s))
   \<and> (el \<notin> processedNodes s \<and> hasStyle b el \<longrightarrow>
        fst (hideElement b el s) = Completed
        \<and> processedNodes (snd (hideElement b el s)) = insert el (processedNodes s)
        \<and> inlineStyles (snd (hideElement b el s)) el ''display'' = Some (''none'', ''important'')
        \<and> inlineStyles (snd (hideElement b el s)) el ''visibility''
            = Some (''hidden'', ''important'')
        \<and> cosmeticHides (snd (hideElement b el s)) = cosmeticHides s + 1
        \<and> removalQueue (snd (hideElement b el s)) = removalQueue s @ [el])
   \<and> (el \<notin> processedNodes s \<and> \<not> hasStyle b el \<longrightarrow>
        hideElement b el s = (Threw, s\<lparr>processedNodes := insert el (processedNodes s)\<rparr>))"
  by (simp add: hideElement_def setProperty_def)

lemma engine_invariant_reachable:
  "engineInvariant b (run b ops (initialEngine\<lparr>config := cfg, engineMode := m\<rparr>))"
  by (rule inv_run[OF inv_initial])

text \<open>
  Claim C3. Hiding a node that is in ProcessedSet has no effect, a node enters ProcessedSet
  at most once, and a queued node is in ProcessedSet and queued once: those parts hold
  (\<open>hide_primitive_cases\<close>, \<open>engine_invariant_reachable\<close>). The part that entry into
  ProcessedSet implies the two suppression declarations fails on the code. In the
  example the fast selectors match node 3, an element without \<open>style\<close>, and then node 7.
  \<open>hideElement\<close> adds node 3 to ProcessedSet and throws at the first \<open>setProperty\<close>: node 3 is
  processed with no declaration set, not counted and not queued. The \<open>try\<close> of
  \<open>runFastCleanup\<close> swallows the exception and ends the loop, so node 7 is never hidden.
\<close>

theorem hide_marks_unstyled_node_processed:
  "hideElement foreignDocument 3 configuredEngine = (Threw, markedUnstyled)
   \<and> 3 \<in> processedNodes markedUnstyled
   \<and> inlineStyles markedUnstyled 3 ''display'' = None
   \<and> inlineStyles markedUnstyled 3 ''visibility'' = None
   \<and> cosmeticHides markedUnstyled = 0
   \<and> removalQueue markedUnstyled = []
   \<and> runFastCleanup foreignDocument configuredEngine = markedUnstyled
   \<and> 7 \<notin> processedNodes (runFastCleanup foreignDocument configuredEngine)"
proof -
  have h3: "hideElement foreignDocument 3 configuredEngine = (Threw, markedUnstyled)"
    by (simp add: hideElement_def foreignDocument_def adDocument_def emptyDocument_def
          configuredEngine_def initialEngine_def markedUnstyled_def)
  have q: "querySelectorAll foreignDocument
             (join '', '' (fastSelectors (buildConfig ''standard'' ''example.org'')))
             = Some [3, 7]"
    by (simp add: foreignDocument_def)
  have r: "runFastCleanup foreignDocument configuredEngine = markedUnstyled"
    unfolding runFastCleanup_def cfg_simp using join_ne by (simp add: Let_def q h3)
  have m: "processedNodes markedUnstyled = {3}" "inlineStyles markedUnstyled 3 = Map.empty"
    "cosmeticHides markedUnstyled = 0" "removalQueue markedUnstyled = []"
    by (simp_all add: markedUnstyled_def configuredEngine_def initialEngine_def)
  show ?thesis using h3 r m by simp
qed










section \<open>Properties of the service worker\<close>

lemma map_of_cacheSet: "map_of (cacheSet k v c) = (map_of c)(k \<mapsto> v)"
  by (induction c) (auto simp: fun_upd_twist)

lemma length_cacheSet: "length c \<le> length (cacheSet k v c)"
  by (induction c) auto

lemma normalize_example: "normalizeDomain simpleHost (Some ''example.org'') = Some ''example.org''"
  by (simp add: normalizeDomain_def simpleHost_def str_includes_def sublist_code(3)
        toLowerCase_def lowerChar_def)

lemma normalize_empty: "normalizeDomain simpleHost (Some '''') = None"
  by (simp add: normalizeDomain_def)

text \<open>
  For a numeric duration the bounds hold. A relax request whose domain does not normalize,
  or whose duration is a number below 1 or above 120, is answered with \<open>INVALID_PARAMS\<close>,
  leaves the worker state as it was and makes no call. A request for a valid domain with a
  numeric duration in \<open>[1,120]\<close> stores \<open>relaxUntil = now + minutes * 60000\<close> in the entry of
  that domain (the existing entry, or the default one), leaves the entry of every other
  domain alone and, when the alarm is created, answers with the same value.
\<close>

lemma temporary_relax_numeric_bounds:
  "(normalizeDomain hostOf d = None \<or> m < 1 \<or> m > 120 \<longrightarrow>
      handleTemporaryRelax hostOf al now d (Num m) w
        = (w, Some (Failure ''INVALID_PARAMS''), []))
   \<and> (\<forall>n. normalizeDomain hostOf d = Some n \<and> 1 \<le> m \<and> m \<le> 120 \<longrightarrow>
         (al (''relax-'' @ n) (Num m) \<longrightarrow>
            fst (snd (handleTemporaryRelax hostOf al now d (Num m) w))
              = Some (RelaxOk (Num (now + m * 60000))))
         \<and> map_of (perSiteCache (fst (handleTemporaryRelax hostOf al now d (Num m) w))) n
             = Some ((siteOrDefault (perSiteCache w) n)
                       \<lparr>relaxUntil := Some (Num (now + m * 60000))\<rparr>)
         \<and> (\<forall>k. k \<noteq> n \<longrightarrow>
               map_of (perSiteCache (fst (handleTemporaryRelax hostOf al now d (Num m) w))) k
                 = map_of (perSiteCache w) k))"
  by (auto simp: handleTemporaryRelax_def Let_def debouncePersistSettings_def map_of_cacheSet
           js_less_def js_greater_def js_plus_times_def
           split: option.splits)

lemma temporary_relax_numeric_examples:
  "fst (snd (handleTemporaryRelax simpleHost strictAlarms 1000 (Some ''example.org'') (Num 30)
               emptyWorker))
       = Some (RelaxOk (Num 1801000))
   \<and> map_of (perSiteCache (fst (handleTemporaryRelax simpleHost strictAlarms 1000
                                   (Some ''example.org'') (Num 30) emptyWorker))) ''example.org''
       = Some relaxedSite
   \<and> handleTemporaryRelax simpleHost strictAlarms 1000 (Some ''example.org'') (Num 121) emptyWorker
       = (emptyWorker, Some (Failure ''INVALID_PARAMS''), [])
   \<and> handleTemporaryRelax simpleHost strictAlarms 1000 (Some ''example.org'') (Num 0.5) emptyWorker
       = (emptyWorker, Some (Failure ''INVALID_PARAMS''), [])
   \<and> handleTemporaryRelax simpleHost strictAlarms 1000 (Some '''') (Num 30) emptyWorker
       = (emptyWorker, Some (Failure ''INVALID_PARAMS''), [])"
proof -
  have s: "(siteOrDefault (perSiteCache emptyWorker) ''example.org'')
             \<lparr>relaxUntil := Some (Num (1000 + 30 * 60000))\<rparr>
            = relaxedSite"
    by (simp add: siteOrDefault_def emptyWorker_def relaxedSite_def)
  have al: "strictAlarms (''relax-'' @ ''example.org'') (Num 30)"
    by (simp add: strictAlarms_def)
  show ?thesis
    using temporary_relax_numeric_bounds[where hostOf = simpleHost and al = strictAlarms
        and d = "Some ''example.org''" and m = 30 and now = 1000 and w = emptyWorker]
      temporary_relax_numeric_bounds[where hostOf = simpleHost and al = strictAlarms
        and d = "Some ''example.org''" and m = 121 and now = 1000 and w = emptyWorker]
      temporary_relax_numeric_bounds[where hostOf = simpleHost and al = strictAlarms
        and d = "Some ''example.org''" and m = "0.5" and now = 1000 and w = emptyWorker]
      temporary_relax_numeric_bounds[where hostOf = simpleHost and al = strictAlarms
        and d = "Some ''''" and m = 30 and now = 1000 and w = emptyWorker]
      normalize_example normalize_empty s al
    by simp
qed

text \<open>
  Claim C9. A duration outside \<open>[1,120]\<close> is to be rejected with the per-site state
  unchanged. The code rejects with \<open>minutes < 1 || minutes > 120\<close>, and both comparisons are
  false when \<open>msg.minutes\<close> is \<open>NaN\<close>, is missing or is not numeric. Such a request for a valid
  domain is not rejected. Starting from an empty cache, the entry of the domain is created
  with \<open>relaxUntil = NaN\<close>, the settings are marked dirty and the session rule that allows
  every request of the domain is installed, whatever \<open>chrome.alarms.create\<close> does with the
  delay. When the alarm call returns, \<open>respond\<close> is called with \<open>ok: true\<close>; when it throws, no
  response is sent. In neither case is the answer \<open>INVALID_PARAMS\<close>.
\<close>

theorem temporary_relax_accepts_nan:
  "normalizeDomain simpleHost (Some ''example.org'') = Some ''example.org''
   \<and> handleTemporaryRelax simpleHost lenientAlarms 1000 (Some ''example.org'') NaN emptyWorker
       = (nanRelaxedWorker, Some (RelaxOk NaN),
          [UpdateSessionRules (relaxRuleId ''example.org'') ''example.org'',
           CreateAlarm ''relax-example.org'' NaN])
   \<and> handleTemporaryRelax simpleHost strictAlarms 1000 (Some ''example.org'') NaN emptyWorker
       = (nanRelaxedWorker, None,
          [UpdateSessionRules (relaxRuleId ''example.org'') ''example.org'',
           CreateAlarm ''relax-example.org'' NaN])
   \<and> perSiteCache emptyWorker = []
   \<and> perSiteCache nanRelaxedWorker
       = [(''example.org'', DEFAULT_SITE_SETTINGS\<lparr>relaxUntil := Some NaN\<rparr>)]
   \<and> dirtySettings nanRelaxedWorker"
  using normalize_example
  by (simp add: handleTemporaryRelax_def js_less_def js_greater_def js_plus_times_def Let_def
        siteOrDefault_def emptyWorker_def nanRelaxedWorker_def debouncePersistSettings_def
        lenientAlarms_def strictAlarms_def)

lemma take_sorted_top:
  assumes "sorted (map f ys)"
  shows "\<forall>kept \<in> set (take n ys). \<forall>dropped \<in> set (drop n ys). f kept \<le> f dropped"
proof -
  have "sorted (map f (take n ys) @ map f (drop n ys))"
    using assms by (simp flip: map_append)
  then show ?thesis by (auto simp: sorted_append)
qed

lemma prune_bound: "length (perSiteCache (prunePerSiteCache w)) \<le> MAX_PER_SITE_ENTRIES"
  by (simp add: prunePerSiteCache_def Let_def)

lemma prune_keeps_top:
  assumes "length (perSiteCache w) > MAX_PER_SITE_ENTRIES"
  shows "length (perSiteCache (prunePerSiteCache w)) = MAX_PER_SITE_ENTRIES
         \<and> mset (perSiteCache (prunePerSiteCache w)) \<subseteq># mset (perSiteCache w)
         \<and> (\<forall>kept \<in> set (perSiteCache (prunePerSiteCache w)).
              \<forall>dropped \<in># mset (perSiteCache w) - mset (perSiteCache (prunePerSiteCache w)).
                breakageCount (snd dropped) \<le> breakageCount (snd kept))"
proof -
  let ?f = "\<lambda>e. - breakageCount (snd e)"
  let ?ys = "sort_key ?f (perSiteCache w)"
  have p: "perSiteCache (prunePerSiteCache w) = take MAX_PER_SITE_ENTRIES ?ys"
    using assms by (simp add: prunePerSiteCache_def Let_def)
  have m: "mset (perSiteCache w) = mset (take MAX_PER_SITE_ENTRIES ?ys) + mset (drop MAX_PER_SITE_ENTRIES ?ys)"
    by (metis append_take_drop_id mset_append mset_sort)
  have top: "\<forall>kept \<in> set (take MAX_PER_SITE_ENTRIES ?ys).
               \<forall>dropped \<in> set (drop MAX_PER_SITE_ENTRIES ?ys). ?f kept \<le> ?f dropped"
    by (rule take_sorted_top) simp
  have len: "length (take MAX_PER_SITE_ENTRIES ?ys) = MAX_PER_SITE_ENTRIES"
    using assms by simp
  show ?thesis
    unfolding p using m top len by auto
qed

lemma crowded_length: "length (perSiteCache crowdedWorker) = 501"
  by (simp add: crowdedWorker_def)

text \<open>
  Claim C10, as amended. After a set-mode request for a domain that normalizes, the
  cache holds at most 500 entries. When the entries after the write are more than 500, the
  500 kept are entries of that list, and every entry dropped has a breakage count no
  higher than every entry kept. The toggle, relax and report handlers write their entry
  and never shorten the cache.
\<close>

theorem set_mode_cache_cap:
  assumes valid: "normalizeDomain hostOf d = Some n"
  shows "length (perSiteCache (fst (handleSetMode hostOf d m w))) \<le> 500
   \<and> (length (cacheSet n (withMode m (siteOrDefault (perSiteCache w) n)) (perSiteCache w)) > 500 \<longrightarrow>
        length (perSiteCache (fst (handleSetMode hostOf d m w))) = 500
        \<and> mset (perSiteCache (fst (handleSetMode hostOf d m w)))
            \<subseteq># mset (cacheSet n (withMode m (siteOrDefault (perSiteCache w) n)) (perSiteCache w))
        \<and> (\<forall>kept \<in> set (perSiteCache (fst (handleSetMode hostOf d m w))).
             \<forall>dropped \<in># mset (cacheSet n (withMode m (siteOrDefault (perSiteCache w) n))
                                 (perSiteCache w))
                           - mset (perSiteCache (fst (handleSetMode hostOf d m w))).
               breakageCount (snd dropped) \<le> breakageCount (snd kept)))
   \<and> perSiteCache (fst (handleSetSiteToggle hostOf d key v w))
       = cacheSet n (setToggle key v (siteOrDefault (perSiteCache w) n)) (perSiteCache w)
   \<and> length (perSiteCache w) \<le> length (perSiteCache (fst (handleSetSiteToggle hostOf d key v w)))
   \<and> length (perSiteCache w)
       \<le> length (perSiteCache (fst (handleTemporaryRelax hostOf al now d minutes w)))
   \<and> length (perSiteCache w) \<le> length (perSiteCache (fst (handleReportIssue hostOf d w)))"
proof -
  let ?w1 = "w\<lparr>perSiteCache := cacheSet n (withMode m (siteOrDefault (perSiteCache w) n)) (perSiteCache w)\<rparr>"
  have sm: "perSiteCache (fst (handleSetMode hostOf d m w)) = perSiteCache (prunePerSiteCache ?w1)"
    using valid
    by (simp add: handleSetMode_def Let_def withMode_def debouncePersistSettings_def)
  have a: "length (perSiteCache (fst (handleSetMode hostOf d m w))) \<le> 500"
    unfolding sm using prune_bound[of ?w1] by (simp add: MAX_PER_SITE_ENTRIES_def)
  have b: "length (cacheSet n (withMode m (siteOrDefault (perSiteCache w) n)) (perSiteCache w)) > 500 \<longrightarrow>
        length (perSiteCache (fst (handleSetMode hostOf d m w))) = 500
        \<and> mset (perSiteCache (fst (handleSetMode hostOf d m w)))
            \<subseteq># mset (cacheSet n (withMode m (siteOrDefault (perSiteCache w) n)) (perSiteCache w))
        \<and> (\<forall>kept \<in> set (perSiteCache (fst (handleSetMode hostOf d m w))).
             \<forall>dropped \<in># mset (cacheSet n (withMode m (siteOrDefault (perSiteCache w) n))
                                 (perSiteCache w))
                           - mset (perSiteCache (fst (handleSetMode hostOf d m w))).
               breakageCount (snd dropped) \<le> breakageCount (snd kept))"
    unfolding sm using prune_keeps_top[of ?w1] by (simp add: MAX_PER_SITE_ENTRIES_def)
  have t: "perSiteCache (fst (handleSetSiteToggle hostOf d key v w))
       = cacheSet n (setToggle key v (siteOrDefault (perSiteCache w) n)) (perSiteCache w)"
    using valid by (simp add: handleSetSiteToggle_def Let_def debouncePersistSettings_def)
  have c: "length (perSiteCache w) \<le> length (perSiteCache (fst (handleSetSiteToggle hostOf d key v w)))"
    unfolding t by (rule length_cacheSet)
  have r: "length (perSiteCache w)
       \<le> length (perSiteCache (fst (handleTemporaryRelax hostOf al now d minutes w)))"
    using valid
    by (simp add: handleTemporaryRelax_def Let_def debouncePersistSettings_def length_cacheSet)
  have i: "length (perSiteCache w) \<le> length (perSiteCache (fst (handleReportIssue hostOf d w)))"
    using valid
    by (simp add: handleReportIssue_def Let_def debouncePersistSettings_def length_cacheSet)
  from a b t c r i show ?thesis by blast
qed

theorem set_mode_cache_cap_witness:
  "normalizeDomain simpleHost (Some ''example.org'') = Some ''example.org''
   \<and> length (perSiteCache crowdedWorker) = 501
   \<and> length (perSiteCache (fst (handleSetMode simpleHost (Some ''example.org'') Advanced
                                    crowdedWorker))) = 500
   \<and> 501 \<le> length (perSiteCache (fst (handleSetSiteToggle simpleHost (Some ''example.org'')
                                          CosmeticsOff True crowdedWorker)))"
proof -
  have big: "length (cacheSet ''example.org''
               (withMode Advanced (siteOrDefault (perSiteCache crowdedWorker) ''example.org''))
               (perSiteCache crowdedWorker)) > 500"
    using length_cacheSet[of "perSiteCache crowdedWorker" "''example.org''"
            "withMode Advanced (siteOrDefault (perSiteCache crowdedWorker) ''example.org'')"]
    by (simp add: crowded_length)
  note cap = set_mode_cache_cap[OF normalize_example, where m = Advanced and w = crowdedWorker
      and key = CosmeticsOff and v = True and al = lenientAlarms and now = 0
      and minutes = "Num 1"]
  from cap big have pruned:
    "length (perSiteCache (fst (handleSetMode simpleHost (Some ''example.org'') Advanced
                                    crowdedWorker))) = 500"
    by blast
  from cap have grown:
    "length (perSiteCache crowdedWorker)
       \<le> length (perSiteCache (fst (handleSetSiteToggle simpleHost (Some ''example.org'')
                                          CosmeticsOff True crowdedWorker)))"
    by blast
  show ?thesis
    using pruned grown normalize_example crowded_length by simp
qed

text \<open>
  The claim as stated, after every set-mode operation, fails on the early return for a
  domain that does not normalize: a cache of 501 entries, which the handlers that never
  prune can leave behind, is returned as it is.
\<close>

theorem set_mode_cache_cap_counterexample:
  "normalizeDomain simpleHost (Some '''') = None
   \<and> handleSetMode simpleHost (Some '''') Advanced crowdedWorker
       = (crowdedWorker, Failure ''INVALID_DOMAIN'')
   \<and> length (perSiteCache crowdedWorker) = 501"
  by (simp add: normalize_empty handleSetMode_def crowded_length)

end
